theory Spec2Isabelle
  imports Main
begin

section \<open>Exceptions\<close>

text \<open>
  Every exception that \<^verbatim>\<open>earthexplorer.py\<close> can raise or let through is a value.
  \<open>IndexError\<close>, \<open>KeyError\<close>, \<open>TypeError\<close> and \<open>ValueError\<close> are the Python built-ins and
  \<open>EarthExplorerError\<close> is the package's own error with its message. Of the exceptions
  of \<^verbatim>\<open>requests\<close>, \<open>Timeout\<close> stands for every instance of \<^verbatim>\<open>requests.exceptions.Timeout\<close>
  (\<^verbatim>\<open>ConnectTimeout\<close> and \<^verbatim>\<open>ReadTimeout\<close> are its subclasses), \<open>ConnectionError\<close> for a
  \<^verbatim>\<open>ConnectionError\<close> that is not a \<^verbatim>\<open>Timeout\<close>, and \<open>CookieConflictError\<close>,
  \<open>ChunkedEncodingError\<close>, \<open>ContentDecodingError\<close> and \<open>SSLError\<close> for the classes of these
  names. \<open>OtherError\<close> stands for any other exception of the network, the file system or
  a collaborator. The module catches \<^verbatim>\<open>requests.exceptions.Timeout\<close> and nothing else.
\<close>

datatype exn =
    IndexError
  | KeyError string
  | TypeError
  | ValueError
  | EarthExplorerError string
  | Timeout
  | ConnectionError
  | CookieConflictError
  | ChunkedEncodingError
  | ContentDecodingError
  | SSLError
  | OtherError string

section \<open>Token extraction from the login page\<close>

definition dquote :: char where
  "dquote = CHR 0x22"

definition newline :: char where
  "newline = CHR 0x0A"

text \<open>
  Both patterns of \<^verbatim>\<open>_get_tokens\<close> have the shape \<^verbatim>\<open>LITERAL(.+?)"\<close>: a literal prefix, a
  lazy group of one or more characters other than newline, and a closing double quote.
  \<open>strip_prefix\<close> matches the literal, \<open>lazy_group\<close> extends the group one character at a
  time until the next character is a double quote.
\<close>

fun strip_prefix :: "string \<Rightarrow> string \<Rightarrow> string option" where
  "strip_prefix [] s = Some s"
| "strip_prefix (p # ps) [] = None"
| "strip_prefix (p # ps) (c # cs) = (if p = c then strip_prefix ps cs else None)"

fun lazy_group :: "string \<Rightarrow> string \<Rightarrow> (string \<times> string) option" where
  "lazy_group acc [] = None"
| "lazy_group acc (c # cs) =
     (if c = dquote then Some (acc, cs)
      else if c = newline then None
      else lazy_group (acc @ [c]) cs)"

definition match_at :: "string \<Rightarrow> string \<Rightarrow> (string \<times> string) option" where
  "match_at pre s =
     (case strip_prefix pre s of
        None \<Rightarrow> None
      | Some [] \<Rightarrow> None
      | Some (c # cs) \<Rightarrow> if c = newline then None else lazy_group [c] cs)"

lemma strip_prefix_length: "strip_prefix pre s = Some r \<Longrightarrow> length r \<le> length s"
  by (induction pre s rule: strip_prefix.induct) (auto split: if_splits)

lemma lazy_group_length: "lazy_group acc s = Some (g, r) \<Longrightarrow> length r < length s"
  by (induction acc s rule: lazy_group.induct) (auto split: if_splits)

lemma match_at_length: "match_at pre s = Some (g, r) \<Longrightarrow> length r < length s"
  unfolding match_at_def
  by (auto split: option.splits list.splits if_splits
           dest!: strip_prefix_length lazy_group_length)

text \<open>
  \<^verbatim>\<open>re.findall\<close> with one group: the groups of all non-overlapping matches, scanning from
  the left; after a match the scan resumes behind it, otherwise one character further.
\<close>

function findall :: "string \<Rightarrow> string \<Rightarrow> string list" where
  "findall pre s =
     (case match_at pre s of
        Some (g, rest) \<Rightarrow> g # findall pre rest
      | None \<Rightarrow> (case s of [] \<Rightarrow> [] | c # cs \<Rightarrow> findall pre cs))"
  by pat_completeness auto
termination
  by (relation "measure (\<lambda>(pre, s). length s)") (auto dest: match_at_length)

declare findall.simps [simp del]

definition csrf_pattern :: string where
  "csrf_pattern = ''name='' @ [dquote] @ ''csrf'' @ [dquote] @ '' value='' @ [dquote]"

definition ncform_pattern :: string where
  "ncform_pattern = ''name='' @ [dquote] @ ''__ncforminfo'' @ [dquote] @ '' value='' @ [dquote]"

definition py_first :: "'a list \<Rightarrow> exn + 'a" where
  \<comment> \<open>\<^verbatim>\<open>xs[0]\<close>\<close>
  "py_first xs = (case xs of [] \<Rightarrow> Inl IndexError | x # _ \<Rightarrow> Inr x)"

definition get_tokens :: "string \<Rightarrow> exn + (string \<times> string)" where
  "get_tokens body =
     (case py_first (findall csrf_pattern body) of
        Inl e \<Rightarrow> Inl e
      | Inr csrf \<Rightarrow>
          (case py_first (findall ncform_pattern body) of
             Inl e \<Rightarrow> Inl e
           | Inr ncform \<Rightarrow>
               if csrf = [] then Inl (EarthExplorerError ''EE: login failed (csrf token not found).'')
               else if ncform = [] then Inl (EarthExplorerError ''EE: login failed (ncforminfo not found).'')
               else Inr (csrf, ncform)))"

section \<open>Python helpers used by the download\<close>

text \<open>
  \<^verbatim>\<open>str.split(sep)\<close> for a separator of one character: the result is never empty, and the
  empty string gives the list whose one element is the empty string.
\<close>

fun split_on :: "char \<Rightarrow> string \<Rightarrow> string list" where
  "split_on sep [] = [[]]"
| "split_on sep (c # cs) =
     (if c = sep then [] # split_on sep cs
      else (case split_on sep cs of
              [] \<Rightarrow> [[c]]
            | p # ps \<Rightarrow> (c # p) # ps))"

definition py_last :: "'a list \<Rightarrow> exn + 'a" where
  \<comment> \<open>\<^verbatim>\<open>xs[-1]\<close>\<close>
  "py_last xs = (if xs = [] then Inl IndexError else Inr (last xs))"

definition replace_dquote :: "string \<Rightarrow> string" where
  \<comment> \<open>\<^verbatim>\<open>s.replace('"', "")\<close>\<close>
  "replace_dquote s = filter (\<lambda>c. c \<noteq> dquote) s"

definition os_path_join :: "string \<Rightarrow> string \<Rightarrow> string" where
  \<comment> \<open>\<^verbatim>\<open>posixpath.join(a, b)\<close>: an absolute \<open>b\<close> replaces \<open>a\<close>\<close>
  "os_path_join a b =
     (if b \<noteq> [] \<and> hd b = CHR ''/'' then b
      else if a = [] \<or> last a = CHR ''/'' then a @ b
      else a @ ''/'' @ b)"

text \<open>
  \<^verbatim>\<open>int(x)\<close> for a header value: \<open>None\<close> is a \<open>TypeError\<close>; a string is stripped of
  white space, may carry one sign, and must then be decimal digits with single
  underscores between them, else \<open>ValueError\<close>. Header values are Latin-1 text, so a
  character is its code point.
\<close>

definition is_space :: "char \<Rightarrow> bool" where
  "is_space c = ((of_char c :: nat) \<in> {9, 10, 11, 12, 13, 32, 133, 160})"

definition is_digit :: "char \<Rightarrow> bool" where
  "is_digit c = (48 \<le> (of_char c :: nat) \<and> (of_char c :: nat) \<le> 57)"

definition strip :: "string \<Rightarrow> string" where
  "strip s = rev (dropWhile is_space (rev (dropWhile is_space s)))"

fun digits_ok :: "string \<Rightarrow> bool" where
  "digits_ok [] = False"
| "digits_ok [c] = is_digit c"
| "digits_ok (c # d # cs) =
     (is_digit c \<and> (if d = CHR ''_'' then digits_ok cs else digits_ok (d # cs)))"

definition decimal :: "string \<Rightarrow> nat" where
  "decimal s = foldl (\<lambda>n c. 10 * n + (of_char c - 48)) 0 (filter is_digit s)"

definition py_int :: "string option \<Rightarrow> exn + int" where
  "py_int v =
     (case v of
        None \<Rightarrow> Inl TypeError
      | Some s \<Rightarrow>
          (case strip s of
             [] \<Rightarrow> Inl ValueError
           | c # cs \<Rightarrow>
               if c = CHR ''-'' then
                 (if digits_ok cs then Inr (- int (decimal cs)) else Inl ValueError)
               else if c = CHR ''+'' then
                 (if digits_ok cs then Inr (int (decimal cs)) else Inl ValueError)
               else if digits_ok (c # cs) then Inr (int (decimal (c # cs)))
               else Inl ValueError))"

text \<open>\<^verbatim>\<open>str(n)\<close> for an integer, as \<^verbatim>\<open>"{}".format(timeout)\<close> prints it.\<close>

fun digits :: "nat \<Rightarrow> string" where
  "digits n =
     (if n < 10 then [char_of (48 + n)]
      else digits (n div 10) @ [char_of (48 + n mod 10)])"

declare digits.simps [simp del]

definition str_int :: "int \<Rightarrow> string" where
  "str_int i = (if i < 0 then CHR ''-'' # digits (nat (- i)) else digits (nat i))"

section \<open>The portal, the file system and the collaborators\<close>

text \<open>
  What the module does to the outside is recorded as a trace of events, in the order of
  the calls. An event is recorded when the call is made, whether it then returns or
  raises.
\<close>

datatype event =
    Get string
  | Post string "(string \<times> string) list"
  | StreamGet string int
  | MakeDirs string
  | GetSceneId string string
  | Open string
  | Write string string
  | Update int

text \<open>
  The cookie jar of \<^verbatim>\<open>self.session\<close> is a \<^verbatim>\<open>RequestsCookieJar\<close>: a dictionary from domain to
  path to name to cookie, each level in the order of insertion. A cookie may lack a value.
\<close>

record cookie =
  cookie_domain :: string
  cookie_path :: string
  cookie_name :: string
  cookie_value :: "string option"

type_synonym jar = "(string \<times> (string \<times> (string \<times> string option) list) list) list"

text \<open>
  \<^verbatim>\<open>CookieJar.set_cookie\<close>: the cookie replaces the one of its domain, path and name where it
  stands, or is added at the end of its level.
\<close>

fun set_name :: "string \<Rightarrow> string option \<Rightarrow> (string \<times> string option) list
    \<Rightarrow> (string \<times> string option) list" where
  "set_name n v [] = [(n, v)]"
| "set_name n v ((n', v') # c3) = (if n' = n then (n, v) # c3 else (n', v') # set_name n v c3)"

fun set_path :: "string \<Rightarrow> string \<Rightarrow> string option
    \<Rightarrow> (string \<times> (string \<times> string option) list) list
    \<Rightarrow> (string \<times> (string \<times> string option) list) list" where
  "set_path p n v [] = [(p, [(n, v)])]"
| "set_path p n v ((p', c3) # c2) =
     (if p' = p then (p, set_name n v c3) # c2 else (p', c3) # set_path p n v c2)"

fun set_domain :: "string \<Rightarrow> string \<Rightarrow> string \<Rightarrow> string option \<Rightarrow> jar \<Rightarrow> jar" where
  "set_domain d p n v [] = [(d, [(p, [(n, v)])])]"
| "set_domain d p n v ((d', c2) # c) =
     (if d' = d then (d, set_path p n v c2) # c else (d', c2) # set_domain d p n v c)"

text \<open>
  \<^verbatim>\<open>RequestsCookieJar.set_cookie\<close> first removes every \<^verbatim>\<open>\"\<close> from a value that starts and ends
  with a double quote.
\<close>

definition backslash :: char where
  "backslash = CHR 0x5C"

fun remove_escaped_quotes :: "string \<Rightarrow> string" where
  "remove_escaped_quotes (a # b # cs) =
     (if a = backslash \<and> b = dquote then remove_escaped_quotes cs
      else a # remove_escaped_quotes (b # cs))"
| "remove_escaped_quotes cs = cs"

definition set_cookie :: "cookie \<Rightarrow> jar \<Rightarrow> jar" where
  "set_cookie c j =
     (let v = (case cookie_value c of
                 None \<Rightarrow> None
               | Some s \<Rightarrow>
                   if s \<noteq> [] \<and> hd s = dquote \<and> last s = dquote
                   then Some (remove_escaped_quotes s) else Some s)
      in set_domain (cookie_domain c) (cookie_path c) (cookie_name c) v j)"

text \<open>\<^verbatim>\<open>CookieJar.clear(domain, path, name)\<close>, with the \<open>KeyError\<close> of a missing cookie ignored.\<close>

definition clear_cookie :: "string \<Rightarrow> string \<Rightarrow> string \<Rightarrow> jar \<Rightarrow> jar" where
  "clear_cookie d p n j =
     map (\<lambda>(d', c2).
            if d' = d
            then (d', map (\<lambda>(p', c3). if p' = p then (p', filter (\<lambda>e. fst e \<noteq> n) c3) else (p', c3)) c2)
            else (d', c2)) j"

text \<open>\<^verbatim>\<open>iter(jar)\<close>: the cookies, domain by domain and path by path.\<close>

definition jar_cookies :: "jar \<Rightarrow> cookie list" where
  "jar_cookies j =
     concat (map (\<lambda>(d, c2).
       concat (map (\<lambda>(p, c3).
         map (\<lambda>(n, v). \<lparr>cookie_domain = d, cookie_path = p, cookie_name = n, cookie_value = v\<rparr>) c3)
       c2)) j)"

text \<open>
  What a response does to the jar: it stores the cookies that the cookie policy accepts
  and clears those that the response expires.
\<close>

datatype cookie_op = Store cookie | Expire string string string

fun apply_cookie_op :: "cookie_op \<Rightarrow> jar \<Rightarrow> jar" where
  "apply_cookie_op (Store c) j = set_cookie c j"
| "apply_cookie_op (Expire d p n) j = clear_cookie d p n j"

text \<open>
  The loop of \<^verbatim>\<open>RequestsCookieJar._find_no_duplicates\<close> for a name (domain and path are not
  given), with the variable \<open>toReturn\<close>; then the function, and \<^verbatim>\<open>get\<close>, which turns its
  \<open>KeyError\<close> into \<open>None\<close>.
\<close>

fun find_loop :: "string \<Rightarrow> cookie list \<Rightarrow> string option \<Rightarrow> exn + string option" where
  "find_loop name [] toReturn = Inr toReturn"
| "find_loop name (c # cs) toReturn =
     (if cookie_name c = name then
        (if toReturn \<noteq> None then Inl CookieConflictError
         else find_loop name cs (cookie_value c))
      else find_loop name cs toReturn)"

definition find_no_duplicates :: "jar \<Rightarrow> string \<Rightarrow> exn + string" where
  "find_no_duplicates j name =
     (case find_loop name (jar_cookies j) None of
        Inl e \<Rightarrow> Inl e
      | Inr toReturn \<Rightarrow>
          (case toReturn of
             None \<Rightarrow> Inl (KeyError name)
           | Some v \<Rightarrow> if v \<noteq> [] then Inr v else Inl (KeyError name)))"

definition cookies_get :: "jar \<Rightarrow> string \<Rightarrow> exn + string option" where
  "cookies_get j name =
     (case find_no_duplicates j name of
        Inl e \<Rightarrow> (case e of KeyError k \<Rightarrow> Inr None | _ \<Rightarrow> Inl e)
      | Inr v \<Rightarrow> Inr (Some v))"

text \<open>
  The state the module works on: the cookie jar of the session, the trace, the contents
  of the files written, and the total and the counter of the progress bar.
\<close>

record world =
  cookies :: jar
  trace :: "event list"
  files :: "string \<rightharpoonup> string"
  pbar_total :: int
  pbar :: int

text \<open>
  A response of the portal: its headers (keyed as the module asks for them), its text,
  what it does to the cookie jar, and for a streamed response the data that the
  successive reads of the raw \<^verbatim>\<open>urllib3\<close> stream return, followed by the error that the
  stream raises afterwards, if any.
\<close>

datatype raw_error = ProtocolError | DecodeError | ReadTimeoutError | RawSSLError | RawOther string

record response =
  headers :: "string \<rightharpoonup> string"
  body :: string
  set_cookies :: "cookie_op list"
  chunks :: "string list"
  stream_exn :: "raw_error option"

text \<open>
  \<^verbatim>\<open>Response.iter_content\<close> on a streamed response: \<^verbatim>\<open>raw.stream\<close> passes on what a read returns
  only \<^verbatim>\<open>if data\<close>, so no chunk is empty; and an error of the stream is raised as an
  exception of \<^verbatim>\<open>requests\<close>, a read timeout as \<open>ConnectionError\<close>.
\<close>

fun raised_by_iter_content :: "raw_error \<Rightarrow> exn" where
  "raised_by_iter_content ProtocolError = ChunkedEncodingError"
| "raised_by_iter_content DecodeError = ContentDecodingError"
| "raised_by_iter_content ReadTimeoutError = ConnectionError"
| "raised_by_iter_content RawSSLError = SSLError"
| "raised_by_iter_content (RawOther s) = OtherError s"

definition iter_content :: "response \<Rightarrow> string list \<times> exn option" where
  "iter_content r =
     (filter (\<lambda>data. data \<noteq> []) (chunks r), map_option raised_by_iter_content (stream_exn r))"

text \<open>
  Everything the module calls and does not define is a parameter: the network, the file
  system, and the functions \<^verbatim>\<open>guess_dataset\<close>, \<^verbatim>\<open>is_product_id\<close> (of \<^verbatim>\<open>landsatxplore.util\<close>) and
  \<^verbatim>\<open>API.get_scene_id\<close> (of \<^verbatim>\<open>landsatxplore.api\<close>). Each may answer differently as the
  state changes, and each but the classifier may raise.
\<close>

record env =
  net_get :: "world \<Rightarrow> string \<Rightarrow> exn + response"
  net_post :: "world \<Rightarrow> string \<Rightarrow> (string \<times> string) list \<Rightarrow> exn + response"
  net_stream :: "world \<Rightarrow> string \<Rightarrow> int \<Rightarrow> exn + response"
  os_makedirs :: "world \<Rightarrow> string \<Rightarrow> exn option"
  os_open :: "world \<Rightarrow> string \<Rightarrow> exn option"
  os_write :: "world \<Rightarrow> string \<Rightarrow> string \<Rightarrow> exn option"
  guess_dataset :: "string \<Rightarrow> exn + string"
  is_product_id :: "string \<Rightarrow> bool"
  get_scene_id :: "world \<Rightarrow> string \<Rightarrow> string \<Rightarrow> exn + string"

definition emit :: "event \<Rightarrow> world \<Rightarrow> world" where
  "emit e w = w\<lparr>trace := trace w @ [e]\<rparr>"

definition store_cookies :: "cookie_op list \<Rightarrow> world \<Rightarrow> world" where
  "store_cookies ops w = w\<lparr>cookies := fold apply_cookie_op ops (cookies w)\<rparr>"

section \<open>Constants of the module\<close>

definition EE_LOGIN_URL :: string where
  "EE_LOGIN_URL = ''https://ers.cr.usgs.gov/login/''"

definition EE_LOGOUT_URL :: string where
  "EE_LOGOUT_URL = ''https://earthexplorer.usgs.gov/logout''"

definition EE_DOWNLOAD_URL :: "string \<Rightarrow> string \<Rightarrow> string" where
  \<comment> \<open>the template, applied as \<^verbatim>\<open>EE_DOWNLOAD_URL.format(data_product_id=..., scene_id=...)\<close>\<close>
  "EE_DOWNLOAD_URL data_product_id scene_id =
     ''https://earthexplorer.usgs.gov/download/'' @ data_product_id @ ''/'' @ scene_id @ ''/EE/''"

definition DATA_PRODUCTS :: "string \<rightharpoonup> string" where
  "DATA_PRODUCTS = map_of
     [(''landsat_tm_c1'', ''5e83d08fd9932768''),
      (''landsat_etm_c1'', ''5e83a507d6aaa3db''),
      (''landsat_8_c1'', ''5e83d0b84df8d8c2''),
      (''landsat_tm_c2_l1'', ''5e83d0a0f94d7d8d''),
      (''landsat_etm_c2_l1'', ''5e83d0d08fec8a66''),
      (''landsat_ot_c2_l1'', ''5e81f14f92acf9ef''),
      (''landsat_tm_c2_l2'', ''5e83d11933473426''),
      (''landsat_etm_c2_l2'', ''5e83d12aed0efa58''),
      (''landsat_ot_c2_l2'', ''5e83d14fec7cae84''),
      (''sentinel_2a'', ''5e83a42c6eba8084'')]"

section \<open>The class \<^verbatim>\<open>EarthExplorer\<close>\<close>

definition logged_in :: "world \<Rightarrow> exn + bool" where
  "logged_in w =
     (case cookies_get (cookies w) ''EROS_SSO_production_secure'' of
        Inl e \<Rightarrow> Inl e
      | Inr eros_sso \<Rightarrow> Inr (case eros_sso of None \<Rightarrow> False | Some v \<Rightarrow> v \<noteq> []))"

definition login :: "env \<Rightarrow> string \<Rightarrow> string \<Rightarrow> world \<Rightarrow> world \<times> (exn + unit)" where
  "login env username password w =
     (let w1 = emit (Get EE_LOGIN_URL) w in
      case net_get env w EE_LOGIN_URL of
        Inl e \<Rightarrow> (w1, Inl e)
      | Inr rsp \<Rightarrow>
          (let w2 = store_cookies (set_cookies rsp) w1 in
           case get_tokens (body rsp) of
             Inl e \<Rightarrow> (w2, Inl e)
           | Inr (csrf, ncform) \<Rightarrow>
               (let payload = [(''username'', username), (''password'', password),
                               (''csrf'', csrf), (''__ncforminfo'', ncform)];
                    w3 = emit (Post EE_LOGIN_URL payload) w2 in
                case net_post env w2 EE_LOGIN_URL payload of
                  Inl e \<Rightarrow> (w3, Inl e)
                | Inr rsp2 \<Rightarrow>
                    (let w4 = store_cookies (set_cookies rsp2) w3 in
                     case logged_in w4 of
                       Inl e \<Rightarrow> (w4, Inl e)
                     | Inr ok \<Rightarrow>
                         if \<not> ok then (w4, Inl (EarthExplorerError ''EE: login failed.''))
                         else (w4, Inr ())))))"

definition logout :: "env \<Rightarrow> world \<Rightarrow> world \<times> (exn + unit)" where
  "logout env w =
     (let w1 = emit (Get EE_LOGOUT_URL) w in
      case net_get env w EE_LOGOUT_URL of
        Inl e \<Rightarrow> (w1, Inl e)
      | Inr rsp \<Rightarrow> (store_cookies (set_cookies rsp) w1, Inr ()))"

text \<open>
  The loop of \<^verbatim>\<open>_download\<close> over the chunks of the response: an empty chunk is skipped, any
  other is written to the file and moves the progress bar by \<open>chunk_size\<close>.
\<close>

definition append_file :: "string \<Rightarrow> string \<Rightarrow> world \<Rightarrow> world" where
  "append_file path chunk w =
     w\<lparr>files := (files w)(path \<mapsto> (case files w path of None \<Rightarrow> chunk | Some old \<Rightarrow> old @ chunk))\<rparr>"

fun write_chunks :: "env \<Rightarrow> string \<Rightarrow> int \<Rightarrow> string list \<Rightarrow> world \<Rightarrow> world \<times> exn option" where
  "write_chunks env path chunk_size [] w = (w, None)"
| "write_chunks env path chunk_size (chunk # rest) w =
     (if chunk \<noteq> [] then
        (let w1 = emit (Write path chunk) w in
         case os_write env w path chunk of
           Some e \<Rightarrow> (w1, Some e)
         | None \<Rightarrow>
             (let w2 = append_file path chunk w1;
                  w3 = emit (Update chunk_size) (w2\<lparr>pbar := pbar w2 + chunk_size\<rparr>)
              in write_chunks env path chunk_size rest w3))
      else write_chunks env path chunk_size rest w)"

text \<open>
  Lines 92 and 93: the file name is the last piece of the \<^verbatim>\<open>Content-Disposition\<close> value
  split at \<^verbatim>\<open>=\<close>, without its double quotes.
\<close>

definition header_filename :: "string \<Rightarrow> exn + string" where
  "header_filename disposition =
     (case py_last (split_on CHR ''='' disposition) of
        Inl e \<Rightarrow> Inl e
      | Inr local_filename \<Rightarrow> Inr (replace_dquote local_filename))"

text \<open>
  The body of the \<^verbatim>\<open>try\<close> statement of \<^verbatim>\<open>_download\<close>. Its value is \<open>local_filename\<close>, which
  the function returns after the \<^verbatim>\<open>try\<close>.
\<close>

definition download_body ::
  "env \<Rightarrow> string \<Rightarrow> string \<Rightarrow> int \<Rightarrow> int \<Rightarrow> world \<Rightarrow> world \<times> (exn + string)" where
  "download_body env url output_dir timeout chunk_size w =
     (let w1 = emit (StreamGet url timeout) w in
      case net_stream env w url timeout of
        Inl e \<Rightarrow> (w1, Inl e)
      | Inr r \<Rightarrow>
          (let w2 = store_cookies (set_cookies r) w1 in
           case py_int (headers r ''Content-Length'') of
             Inl e \<Rightarrow> (w2, Inl e)
           | Inr file_size \<Rightarrow>
               (let w3 = w2\<lparr>pbar_total := file_size, pbar := 0\<rparr> in
                case headers r ''Content-Disposition'' of
                  None \<Rightarrow> (w3, Inl (KeyError ''content-disposition''))
                | Some disposition \<Rightarrow>
                    (case header_filename disposition of
                       Inl e \<Rightarrow> (w3, Inl e)
                     | Inr local_filename \<Rightarrow>
                         (let local_filename = os_path_join output_dir local_filename;
                              w4 = emit (Open local_filename) w3 in
                          case os_open env w3 local_filename of
                            Some e \<Rightarrow> (w4, Inl e)
                          | None \<Rightarrow>
                              (let w5 = w4\<lparr>files := (files w4)(local_filename \<mapsto> [])\<rparr> in
                               case write_chunks env local_filename chunk_size
                                      (fst (iter_content r)) w5 of
                                 (w6, Some e) \<Rightarrow> (w6, Inl e)
                               | (w6, None) \<Rightarrow>
                                   (case snd (iter_content r) of
                                      Some e \<Rightarrow> (w6, Inl e)
                                    | None \<Rightarrow> (w6, Inr local_filename))))))))"

definition priv_download ::
  "env \<Rightarrow> string \<Rightarrow> string \<Rightarrow> int \<Rightarrow> int \<Rightarrow> world \<Rightarrow> world \<times> (exn + string)" where
  \<comment> \<open>\<^verbatim>\<open>_download\<close>: the \<^verbatim>\<open>try\<close> body, with the one \<^verbatim>\<open>except\<close> clause\<close>
  "priv_download env url output_dir timeout chunk_size w =
     (case download_body env url output_dir timeout chunk_size w of
        (w', Inl e) \<Rightarrow>
          if e = Timeout then
            (w', Inl (EarthExplorerError
                       (''Connection timeout after '' @ str_int timeout @ '' seconds.'')))
          else (w', Inl e)
      | (w', Inr local_filename) \<Rightarrow> (w', Inr local_filename))"

text \<open>
  Lines 126 and 127: the dataset is guessed from the identifier when \<^verbatim>\<open>not dataset\<close>, that
  is for \<open>None\<close> and for the empty string.
\<close>

definition chosen_dataset :: "env \<Rightarrow> string \<Rightarrow> string option \<Rightarrow> exn + string" where
  "chosen_dataset env scene_id dataset =
     (case dataset of
        None \<Rightarrow> guess_dataset env scene_id
      | Some d \<Rightarrow> if d = [] then guess_dataset env scene_id else Inr d)"

text \<open>
  \<^verbatim>\<open>download\<close> up to the URL (lines 125 to 132): the directory, the dataset, the scene
  identifier and the look-up of the product code. \<^verbatim>\<open>download\<close> itself then passes the URL
  to \<^verbatim>\<open>_download\<close> with the default chunk size.
\<close>

definition download_target ::
  "env \<Rightarrow> string \<Rightarrow> string \<Rightarrow> string option \<Rightarrow> world \<Rightarrow> world \<times> (exn + string)" where
  "download_target env scene_id output_dir dataset w =
     (let w1 = emit (MakeDirs output_dir) w in
      case os_makedirs env w output_dir of
        Some e \<Rightarrow> (w1, Inl e)
      | None \<Rightarrow>
          (case chosen_dataset env scene_id dataset of
             Inl e \<Rightarrow> (w1, Inl e)
           | Inr dataset \<Rightarrow>
               (case (if is_product_id env scene_id
                      then (emit (GetSceneId scene_id dataset) w1, get_scene_id env w1 scene_id dataset)
                      else (w1, Inr scene_id)) of
                  (w2, Inl e) \<Rightarrow> (w2, Inl e)
                | (w2, Inr scene_id) \<Rightarrow>
                    (case DATA_PRODUCTS dataset of
                       None \<Rightarrow> (w2, Inl (KeyError dataset))
                     | Some data_product_id \<Rightarrow>
                         (w2, Inr (EE_DOWNLOAD_URL data_product_id scene_id))))))"

definition download ::
  "env \<Rightarrow> string \<Rightarrow> string \<Rightarrow> string option \<Rightarrow> int \<Rightarrow> world \<Rightarrow> world \<times> (exn + string)" where
  "download env scene_id output_dir dataset timeout w =
     (case download_target env scene_id output_dir dataset w of
        (w1, Inl e) \<Rightarrow> (w1, Inl e)
      | (w1, Inr url) \<Rightarrow> priv_download env url output_dir timeout 1024 w1)"

section \<open>Reading the trace\<close>

text \<open>The events that a run from state \<open>w\<close> to state \<open>w'\<close> has added.\<close>

definition new_events :: "world \<Rightarrow> world \<Rightarrow> event list" where
  "new_events w w' = drop (length (trace w)) (trace w')"

fun is_stream_get :: "event \<Rightarrow> bool" where
  "is_stream_get (StreamGet url timeout) = True"
| "is_stream_get e = False"

fun is_resolve :: "event \<Rightarrow> bool" where
  "is_resolve (GetSceneId scene_id dataset) = True"
| "is_resolve e = False"

fun file_event :: "string \<Rightarrow> int \<Rightarrow> event \<Rightarrow> bool" where
  "file_event path chunk_size (Open p) = (p = path)"
| "file_event path chunk_size (Write p chunk) = (p = path \<and> chunk \<noteq> [])"
| "file_event path chunk_size (Update n) = (n = chunk_size)"
| "file_event path chunk_size e = False"

text \<open>
  The file name in the words of the specification: the part of the header value after
  its final \<open>sep\<close> (all of it when there is none).
\<close>

definition after_final :: "char \<Rightarrow> string \<Rightarrow> string" where
  "after_final sep s = rev (takeWhile (\<lambda>c. c \<noteq> sep) (rev s))"

section \<open>Concrete portals and states\<close>

text \<open>
  A state in which nothing has happened yet, plain page responses, and a portal whose
  answers are fixed; the instances below are evaluated on them.
\<close>

definition world0 :: world where
  "world0 = \<lparr>cookies = [], trace = [], files = Map.empty, pbar_total = 0, pbar = 0\<rparr>"

definition page_response :: "string \<Rightarrow> response" where
  "page_response b = \<lparr>headers = Map.empty, body = b, set_cookies = [], chunks = [], stream_exn = None\<rparr>"

definition test_env :: "response \<Rightarrow> response \<Rightarrow> (exn + response) \<Rightarrow> env" where
  "test_env login_page posted streamed =
     \<lparr>net_get = (\<lambda>w url. Inr login_page),
      net_post = (\<lambda>w url payload. Inr posted),
      net_stream = (\<lambda>w url timeout. streamed),
      os_makedirs = (\<lambda>w path. None),
      os_open = (\<lambda>w path. None),
      os_write = (\<lambda>w path chunk. None),
      guess_dataset = (\<lambda>s. Inr ''landsat_ot_c2_l1''),
      is_product_id = (\<lambda>s. length s = 40),
      get_scene_id = (\<lambda>w s d. Inr ''LC80100172015082LGN00'')\<rparr>"

definition login_form :: string where
  "login_form = ''<input name='' @ [dquote] @ ''csrf'' @ [dquote] @ '' value='' @ [dquote] @ ''abc'' @ [dquote]
     @ ''><input name='' @ [dquote] @ ''__ncforminfo'' @ [dquote] @ '' value='' @ [dquote] @ ''xyz'' @ [dquote] @ ''>''"

text \<open>
  A streamed response of four bytes in three reads, the middle one empty, a portal that
  serves it, one whose resolver raises, one on which the streamed request times out, and
  one on which reading the body times out.
\<close>

definition tar_response :: response where
  "tar_response =
     \<lparr>headers = [''Content-Length'' \<mapsto> ''4'',
                 ''Content-Disposition'' \<mapsto> ''attachment; filename='' @ [dquote] @ ''LC08_scene.tar'' @ [dquote]],
      body = [], set_cookies = [], chunks = [''ab'', [], ''cd''], stream_exn = None\<rparr>"

definition portal :: env where
  "portal = test_env (page_response login_form) (page_response []) (Inr tar_response)"

text \<open>A scene identifier, and a product identifier (of forty characters).\<close>

definition scene :: string where
  "scene = ''LC80100172015082LGN00''"

definition product :: string where
  "product = ''LC08_L1TP_010017_20150323_20200909_02_T1''"

definition failing_resolver :: env where
  "failing_resolver = portal\<lparr>get_scene_id := (\<lambda>w s d. Inl (OtherError ''dataset not found''))\<rparr>"



definition disposition :: string where
  "disposition = ''attachment; filename='' @ [dquote] @ ''LC08_scene.tar'' @ [dquote]"

text \<open>
  The session cookie stored once, with another cookie beside it; and stored twice, for
  two domains.
\<close>

definition sso_cookie :: "string \<Rightarrow> string \<Rightarrow> cookie" where
  "sso_cookie d v =
     \<lparr>cookie_domain = d, cookie_path = ''/'', cookie_name = ''EROS_SSO_production_secure'',
      cookie_value = Some v\<rparr>"

definition session_cookie :: cookie where
  "session_cookie =
     \<lparr>cookie_domain = ''ers.cr.usgs.gov'', cookie_path = ''/'', cookie_name = ''PHPSESSID'',
      cookie_value = Some ''77''\<rparr>"

definition one_sso :: jar where
  "one_sso = set_cookie session_cookie (set_cookie (sso_cookie ''.usgs.gov'' ''f3a9'') [])"

definition two_sso :: jar where
  "two_sso = set_cookie (sso_cookie ''earthexplorer.usgs.gov'' ''f3a9'')
               (set_cookie (sso_cookie ''ers.cr.usgs.gov'' ''c21b'') [])"

section \<open>The tokens of the login form\<close>

lemma lazy_group_acc: "lazy_group acc s = Some (g, r) \<Longrightarrow> acc \<noteq> [] \<Longrightarrow> g \<noteq> []"
  by (induction acc s rule: lazy_group.induct) (auto split: if_splits)

lemma match_at_nonempty: "match_at pre s = Some (g, r) \<Longrightarrow> g \<noteq> []"
  unfolding match_at_def
  by (auto split: option.splits list.splits if_splits dest: lazy_group_acc)

lemma findall_nonempty: "g \<in> set (findall pre s) \<Longrightarrow> g \<noteq> []"
proof (induction pre s rule: findall.induct)
  case (1 pre s)
  from "1.prems" have mem:
    "g \<in> set (case match_at pre s of
                 Some (g, rest) \<Rightarrow> g # findall pre rest
               | None \<Rightarrow> (case s of [] \<Rightarrow> [] | c # cs \<Rightarrow> findall pre cs))"
    by (subst (asm) findall.simps)
  show ?case
  proof (cases "match_at pre s")
    case None
    show ?thesis
    proof (cases s)
      case Nil
      with mem None show ?thesis by simp
    next
      case (Cons c cs)
      with mem None have "g \<in> set (findall pre cs)" by simp
      from "1.IH"(1) [OF None Cons this] show ?thesis .
    qed
  next
    case (Some p)
    obtain g' r where p: "p = (g', r)" by (cases p)
    with Some mem have "g = g' \<or> g \<in> set (findall pre r)" by auto
    then show ?thesis
    proof
      assume "g = g'"
      with Some p match_at_nonempty [of pre s g' r] show ?thesis by simp
    next
      assume "g \<in> set (findall pre r)"
      from "1.IH"(2) [OF Some [unfolded p] refl this] show ?thesis .
    qed
  qed
qed

lemma py_first_Inr: "py_first xs = Inr x \<Longrightarrow> x \<in> set xs"
  by (cases xs) (auto simp: py_first_def)

lemma py_first_Inl: "py_first xs = Inl e \<Longrightarrow> e = IndexError \<and> xs = []"
  by (cases xs) (auto simp: py_first_def)

text \<open>
  C9. In \<^verbatim>\<open>_get_tokens\<close> the two checks \<^verbatim>\<open>if not csrf\<close> and \<^verbatim>\<open>if not ncform\<close> can never fire:
  a group matched by \<^verbatim>\<open>(.+?)\<close> has at least one character. So the function either raises
  \<open>IndexError\<close> at an indexing \<^verbatim>\<open>[0]\<close> (exactly when one of the two patterns has no match in
  the body), or returns two non-empty tokens, the first match of each pattern.
\<close>

theorem get_tokens_checks_unreachable:
  "(get_tokens b = Inl IndexError \<and> (findall csrf_pattern b = [] \<or> findall ncform_pattern b = []))
   \<or> (\<exists>csrf ncform. get_tokens b = Inr (csrf, ncform) \<and> csrf \<noteq> [] \<and> ncform \<noteq> []
        \<and> py_first (findall csrf_pattern b) = Inr csrf
        \<and> py_first (findall ncform_pattern b) = Inr ncform)"
proof (cases "py_first (findall csrf_pattern b)")
  case (Inl e)
  then show ?thesis
    by (auto simp: get_tokens_def dest: py_first_Inl)
next
  case c: (Inr csrf)
  then have c0: "csrf \<noteq> []"
    by (auto dest!: py_first_Inr findall_nonempty)
  show ?thesis
  proof (cases "py_first (findall ncform_pattern b)")
    case (Inl e)
    with c show ?thesis
      by (auto simp: get_tokens_def dest: py_first_Inl)
  next
    case (Inr ncform)
    then have "ncform \<noteq> []"
      by (auto dest!: py_first_Inr findall_nonempty)
    with c c0 Inr show ?thesis
      by (simp add: get_tokens_def)
  qed
qed

theorem get_tokens_checks_unreachable_witness:
  "get_tokens login_form = Inr (''abc'', ''xyz'') \<and> get_tokens ''<html></html>'' = Inl IndexError"
proof -
  have a: "get_tokens login_form = Inr (''abc'', ''xyz'')" by code_simp
  have b: "get_tokens ''<html></html>'' = Inl IndexError" by code_simp
  show ?thesis
    using get_tokens_checks_unreachable [of login_form] get_tokens_checks_unreachable [of "''<html></html>''"] a b
    by simp
qed

text \<open>
  C1. A login page without a token must make the login fail, before the POST, with the
  package's own error naming the token; \<^verbatim>\<open>_get_tokens\<close> has the two checks for it. On the
  page \<^verbatim>\<open><html></html>\<close>, which has neither token, \<^verbatim>\<open>login\<close> does stop before the POST (the
  trace holds the GET of the login page only), but what it raises is the \<open>IndexError\<close> of
  \<^verbatim>\<open>re.findall(...)[0]\<close>, not \<open>EarthExplorerError\<close>: the checks come after the indexing.
\<close>

theorem login_missing_token_IndexError:
  "login (test_env (page_response ''<html></html>'') (page_response []) (Inl Timeout)) ''user'' ''secret'' world0
     = (world0\<lparr>trace := [Get EE_LOGIN_URL]\<rparr>, Inl IndexError)"
proof -
  have b: "get_tokens ''<html></html>'' = Inl IndexError" by code_simp
  show ?thesis
    by (simp add: login_def test_env_def page_response_def world0_def emit_def store_cookies_def b)
qed

section \<open>The session cookie\<close>

lemma find_loop_filter:
  "find_loop name cs r = find_loop name (filter (\<lambda>c. cookie_name c = name) cs) r"
  by (induction cs arbitrary: r) auto

lemma find_loop_error: "find_loop name cs r = Inl e \<Longrightarrow> e = CookieConflictError"
  by (induction cs arbitrary: r) (auto split: if_splits)

lemma set_name_other:
  "n \<noteq> name \<Longrightarrow> filter (\<lambda>e. fst e = name) (set_name n v c3) = filter (\<lambda>e. fst e = name) c3"
  by (induction c3) auto

definition path_cookies :: "string \<Rightarrow> string \<times> (string \<times> string option) list \<Rightarrow> cookie list" where
  "path_cookies d = (\<lambda>(p, c3).
     map (\<lambda>(n, v). \<lparr>cookie_domain = d, cookie_path = p, cookie_name = n, cookie_value = v\<rparr>) c3)"

definition domain_cookies :: "string \<times> (string \<times> (string \<times> string option) list) list \<Rightarrow> cookie list" where
  "domain_cookies = (\<lambda>(d, c2). concat (map (path_cookies d) c2))"

lemma jar_cookies_alt: "jar_cookies j = concat (map domain_cookies j)"
  by (simp add: jar_cookies_def domain_cookies_def path_cookies_def)

lemma filter_path_cookies:
  "filter (\<lambda>c. cookie_name c = name) (path_cookies d (p, c3)) =
     path_cookies d (p, filter (\<lambda>e. fst e = name) c3)"
  by (induction c3) (auto simp: path_cookies_def)

lemma path_cookies_key:
  "filter (\<lambda>c. cookie_name c = name) (path_cookies d (p, c3)) =
     filter (\<lambda>c. cookie_name c = name) (path_cookies d (p, c3'))"
  if "filter (\<lambda>e. fst e = name) c3 = filter (\<lambda>e. fst e = name) c3'"
  using that by (simp add: filter_path_cookies)

lemma set_path_other:
  "n \<noteq> name \<Longrightarrow>
     filter (\<lambda>c. cookie_name c = name) (domain_cookies (d, set_path p n v c2)) =
     filter (\<lambda>c. cookie_name c = name) (domain_cookies (d, c2))"
proof (induction c2)
  case Nil
  then show ?case by (simp add: domain_cookies_def path_cookies_def)
next
  case (Cons a c2)
  obtain p' c3 where a: "a = (p', c3)" by (cases a)
  from Cons show ?case
    using path_cookies_key [OF set_name_other, of n name d p v c3]
    by (auto simp: a domain_cookies_def)
qed

lemma set_domain_other:
  "n \<noteq> name \<Longrightarrow>
     filter (\<lambda>c. cookie_name c = name) (jar_cookies (set_domain d p n v j)) =
     filter (\<lambda>c. cookie_name c = name) (jar_cookies j)"
proof (induction j)
  case Nil
  then show ?case by (simp add: jar_cookies_alt domain_cookies_def path_cookies_def)
next
  case (Cons a j)
  obtain d' c2 where a: "a = (d', c2)" by (cases a)
  from Cons show ?case
    using set_path_other [of n name d p v c2]
    by (auto simp: a jar_cookies_alt)
qed

lemma set_cookie_other:
  "cookie_name c \<noteq> name \<Longrightarrow>
     filter (\<lambda>c. cookie_name c = name) (jar_cookies (set_cookie c j)) =
     filter (\<lambda>c. cookie_name c = name) (jar_cookies j)"
  by (simp add: set_cookie_def Let_def set_domain_other)

lemma clear_cookie_other:
  assumes "n \<noteq> name"
  shows "filter (\<lambda>c. cookie_name c = name) (jar_cookies (clear_cookie d p n j)) =
         filter (\<lambda>c. cookie_name c = name) (jar_cookies j)"
proof -
  have inner: "filter (\<lambda>e. fst e = name) (filter (\<lambda>e. fst e \<noteq> n) c3) = filter (\<lambda>e. fst e = name) c3" for c3 :: "(string \<times> string option) list"
    using assms by (induction c3) auto
  have mid: "filter (\<lambda>c. cookie_name c = name)
               (domain_cookies (d', map (\<lambda>(p', c3). if p' = p then (p', filter (\<lambda>e. fst e \<noteq> n) c3) else (p', c3)) c2)) =
             filter (\<lambda>c. cookie_name c = name) (domain_cookies (d', c2))" for d' c2
  proof (induction c2)
    case Nil
    show ?case by simp
  next
    case (Cons a c2)
    obtain p' c3 where a: "a = (p', c3)" by (cases a)
    from Cons show ?case
      using path_cookies_key [OF inner, of d' p' c3]
      by (auto simp: a domain_cookies_def)
  qed
  show ?thesis
  proof (induction j)
    case Nil
    show ?case by (simp add: clear_cookie_def)
  next
    case (Cons a j)
    obtain d' c2 where a: "a = (d', c2)" by (cases a)
    from Cons mid [of d' c2] show ?case
      by (auto simp: a jar_cookies_alt clear_cookie_def)
  qed
qed

lemma logged_in_matches:
  "logged_in w =
     (case find_loop ''EROS_SSO_production_secure''
             (filter (\<lambda>c. cookie_name c = ''EROS_SSO_production_secure'') (jar_cookies (cookies w))) None of
        Inl e \<Rightarrow> Inl e
      | Inr r \<Rightarrow> Inr (\<exists>v. r = Some v \<and> v \<noteq> []))"
proof -
  have "find_loop ''EROS_SSO_production_secure'' (jar_cookies (cookies w)) None =
        find_loop ''EROS_SSO_production_secure''
          (filter (\<lambda>c. cookie_name c = ''EROS_SSO_production_secure'') (jar_cookies (cookies w))) None"
    by (rule find_loop_filter)
  then show ?thesis
    by (auto simp: logged_in_def cookies_get_def find_no_duplicates_def
             split: sum.splits option.splits exn.splits if_splits
             dest: find_loop_error)
qed

lemma one_sso_cookies:
  "jar_cookies one_sso = [sso_cookie ''.usgs.gov'' ''f3a9'', session_cookie]"
  by (simp add: one_sso_def set_cookie_def sso_cookie_def session_cookie_def jar_cookies_def dquote_def)

lemma two_sso_cookies:
  "jar_cookies two_sso = [sso_cookie ''ers.cr.usgs.gov'' ''c21b'', sso_cookie ''earthexplorer.usgs.gov'' ''f3a9'']"
  by (simp add: two_sso_def set_cookie_def sso_cookie_def jar_cookies_def dquote_def)

text \<open>
  C2, amended. In a jar that holds at most one cookie named \<^verbatim>\<open>EROS_SSO_production_secure\<close>,
  \<^verbatim>\<open>logged_in\<close> returns true exactly when that cookie is there with a non-empty value. In
  every jar its outcome depends on the cookies of that name only: storing or clearing a
  cookie of another name does not change it; and being a function of the state alone, it
  calls and changes nothing. In a jar that holds the name more than once (for another
  domain or path), the first of them with a value, \<^verbatim>\<open>cookies.get\<close> raises
  \<open>CookieConflictError\<close>, and \<^verbatim>\<open>logged_in\<close> raises it instead of returning.
\<close>

theorem logged_in_cookie:
  "(length (filter (\<lambda>c. cookie_name c = ''EROS_SSO_production_secure'') (jar_cookies (cookies w))) \<le> 1 \<longrightarrow>
      logged_in w = Inr (\<exists>c \<in> set (jar_cookies (cookies w)).
                           cookie_name c = ''EROS_SSO_production_secure''
                         \<and> (\<exists>v. cookie_value c = Some v \<and> v \<noteq> [])))
   \<and> (\<forall>w'. filter (\<lambda>c. cookie_name c = ''EROS_SSO_production_secure'') (jar_cookies (cookies w'))
             = filter (\<lambda>c. cookie_name c = ''EROS_SSO_production_secure'') (jar_cookies (cookies w)) \<longrightarrow>
          logged_in w' = logged_in w)
   \<and> (\<forall>c. cookie_name c \<noteq> ''EROS_SSO_production_secure'' \<longrightarrow>
          logged_in (w\<lparr>cookies := set_cookie c (cookies w)\<rparr>) = logged_in w)
   \<and> (\<forall>d p n. n \<noteq> ''EROS_SSO_production_secure'' \<longrightarrow>
          logged_in (w\<lparr>cookies := clear_cookie d p n (cookies w)\<rparr>) = logged_in w)
   \<and> (\<forall>c1 c2 rest.
          filter (\<lambda>c. cookie_name c = ''EROS_SSO_production_secure'') (jar_cookies (cookies w)) = c1 # c2 # rest
          \<and> cookie_value c1 \<noteq> None \<longrightarrow>
          logged_in w = Inl CookieConflictError)"
proof (intro conjI allI impI)
  let ?N = "''EROS_SSO_production_secure''"
  let ?m = "filter (\<lambda>c. cookie_name c = ?N) (jar_cookies (cookies w))"
  assume "length ?m \<le> 1"
  then consider "?m = []" | c where "?m = [c]"
    by (cases ?m; cases "tl ?m") auto
  then show "logged_in w = Inr (\<exists>c \<in> set (jar_cookies (cookies w)).
                           cookie_name c = ?N \<and> (\<exists>v. cookie_value c = Some v \<and> v \<noteq> []))"
  proof cases
    case 1
    then have "\<forall>c \<in> set (jar_cookies (cookies w)). cookie_name c \<noteq> ?N"
      by (simp add: filter_empty_conv)
    with 1 show ?thesis
      by (auto simp: logged_in_matches)
  next
    case (2 c)
    then have "set ?m = {c}" by simp
    then have mem: "\<And>x. (x \<in> set (jar_cookies (cookies w)) \<and> cookie_name x = ?N) = (x = c)"
      by auto
    from 2 have "c \<in> set ?m" by simp
    then have "cookie_name c = ?N" by simp
    with mem have "(\<exists>x \<in> set (jar_cookies (cookies w)).
                      cookie_name x = ?N \<and> (\<exists>v. cookie_value x = Some v \<and> v \<noteq> []))
                 = (\<exists>v. cookie_value c = Some v \<and> v \<noteq> [])"
      by (metis (no_types, lifting))
    moreover from 2 \<open>cookie_name c = ?N\<close> have "logged_in w = Inr (\<exists>v. cookie_value c = Some v \<and> v \<noteq> [])"
      by (simp add: logged_in_matches)
    ultimately show ?thesis by simp
  qed
next
  fix w' :: world
  assume "filter (\<lambda>c. cookie_name c = ''EROS_SSO_production_secure'') (jar_cookies (cookies w'))
             = filter (\<lambda>c. cookie_name c = ''EROS_SSO_production_secure'') (jar_cookies (cookies w))"
  then show "logged_in w' = logged_in w"
    by (simp add: logged_in_matches)
next
  fix c :: cookie
  assume "cookie_name c \<noteq> ''EROS_SSO_production_secure''"
  then show "logged_in (w\<lparr>cookies := set_cookie c (cookies w)\<rparr>) = logged_in w"
    by (simp add: logged_in_matches set_cookie_other)
next
  fix d p n :: string
  assume "n \<noteq> ''EROS_SSO_production_secure''"
  then show "logged_in (w\<lparr>cookies := clear_cookie d p n (cookies w)\<rparr>) = logged_in w"
    by (simp add: logged_in_matches clear_cookie_other)
next
  fix c1 c2 rest
  assume h: "filter (\<lambda>c. cookie_name c = ''EROS_SSO_production_secure'') (jar_cookies (cookies w)) = c1 # c2 # rest
          \<and> cookie_value c1 \<noteq> None"
  then have "c1 \<in> set (filter (\<lambda>c. cookie_name c = ''EROS_SSO_production_secure'') (jar_cookies (cookies w)))"
    and "c2 \<in> set (filter (\<lambda>c. cookie_name c = ''EROS_SSO_production_secure'') (jar_cookies (cookies w)))"
    by simp_all
  then have "cookie_name c1 = ''EROS_SSO_production_secure''" "cookie_name c2 = ''EROS_SSO_production_secure''"
    by simp_all
  with h show "logged_in w = Inl CookieConflictError"
    by (auto simp: logged_in_matches)
qed

theorem logged_in_cookie_witness:
  "logged_in world0 = Inr False
   \<and> logged_in (world0\<lparr>cookies := one_sso\<rparr>) = Inr True
   \<and> logged_in (world0\<lparr>cookies := set_cookie session_cookie []\<rparr>) = Inr False
   \<and> logged_in (world0\<lparr>cookies := clear_cookie ''ers.cr.usgs.gov'' ''/'' ''PHPSESSID'' one_sso\<rparr>) = Inr True
   \<and> logged_in (world0\<lparr>cookies := two_sso\<rparr>) = Inl CookieConflictError"
proof -
  let ?N = "''EROS_SSO_production_secure''"
  let ?w1 = "world0\<lparr>cookies := one_sso\<rparr>"
  let ?w2 = "world0\<lparr>cookies := two_sso\<rparr>"
  have c0: "cookies world0 = []"
    by (simp add: world0_def)
  have j0: "jar_cookies [] = []"
    by (simp add: jar_cookies_def)
  have n1: "cookie_name session_cookie \<noteq> ?N"
    by (simp add: session_cookie_def)
  have n3: "cookie_name (sso_cookie d v) = ?N" "cookie_value (sso_cookie d v) = Some v" for d v
    by (simp_all add: sso_cookie_def)
  have f1: "filter (\<lambda>c. cookie_name c = ?N) (jar_cookies (cookies ?w1)) = [sso_cookie ''.usgs.gov'' ''f3a9'']"
    using n1 by (simp add: one_sso_cookies n3)
  have f2: "filter (\<lambda>c. cookie_name c = ?N) (jar_cookies (cookies ?w2))
              = sso_cookie ''ers.cr.usgs.gov'' ''c21b'' # sso_cookie ''earthexplorer.usgs.gov'' ''f3a9'' # []"
    by (simp add: two_sso_cookies n3)
  have a: "logged_in world0 = Inr False"
    using logged_in_cookie [of world0, THEN conjunct1] by (simp add: c0 j0)
  have b0: "\<exists>c \<in> set (jar_cookies (cookies ?w1)). cookie_name c = ?N \<and> (\<exists>v. cookie_value c = Some v \<and> v \<noteq> [])"
    by (simp add: one_sso_cookies n3)
  from logged_in_cookie [of ?w1, THEN conjunct1]
  have "logged_in ?w1 =
          Inr (\<exists>c \<in> set (jar_cookies (cookies ?w1)). cookie_name c = ?N \<and> (\<exists>v. cookie_value c = Some v \<and> v \<noteq> []))"
    unfolding f1 by simp
  with b0 have b: "logged_in ?w1 = Inr True" by simp
  have "logged_in (world0\<lparr>cookies := set_cookie session_cookie (cookies world0)\<rparr>) = logged_in world0"
    by (rule logged_in_cookie [of world0, THEN conjunct2, THEN conjunct2, THEN conjunct1, rule_format, OF n1])
  then have c: "logged_in (world0\<lparr>cookies := set_cookie session_cookie []\<rparr>) = Inr False"
    by (simp only: c0 a)
  have "logged_in (?w1\<lparr>cookies := clear_cookie ''ers.cr.usgs.gov'' ''/'' ''PHPSESSID'' (cookies ?w1)\<rparr>) = logged_in ?w1"
    by (rule logged_in_cookie [of ?w1, THEN conjunct2, THEN conjunct2, THEN conjunct2, THEN conjunct1, rule_format])
       simp
  then have d: "logged_in (world0\<lparr>cookies := clear_cookie ''ers.cr.usgs.gov'' ''/'' ''PHPSESSID'' one_sso\<rparr>) = Inr True"
    by (simp add: b)
  have e: "logged_in ?w2 = Inl CookieConflictError"
    by (rule logged_in_cookie [of ?w2, THEN conjunct2, THEN conjunct2, THEN conjunct2, THEN conjunct2,
                               rule_format, OF conjI, OF f2])
       (simp add: n3)
  from a b c d e show ?thesis by (intro conjI)
qed

text \<open>
  C2 as stated fails where the session cookie is stored for two domains: \<^verbatim>\<open>logged_in\<close> then
  returns neither true nor false.
\<close>

theorem logged_in_cookie_counterexample:
  "jar_cookies two_sso = [sso_cookie ''ers.cr.usgs.gov'' ''c21b'', sso_cookie ''earthexplorer.usgs.gov'' ''f3a9'']
   \<and> logged_in (world0\<lparr>cookies := two_sso\<rparr>) = Inl CookieConflictError
   \<and> logged_in (world0\<lparr>cookies := two_sso\<rparr>) \<noteq> Inr True"
proof -
  have "logged_in (world0\<lparr>cookies := two_sso\<rparr>) = Inl CookieConflictError"
    by (simp add: logged_in_matches two_sso_cookies sso_cookie_def)
  with two_sso_cookies show ?thesis by simp
qed

section \<open>The file name of the download\<close>

lemma split_on_nonempty: "split_on sep s \<noteq> []"
  by (induction s) (auto split: list.splits)

lemma split_on_single: "sep \<notin> set s \<Longrightarrow> split_on sep s = [s]"
  by (induction s) auto

lemma split_on_many: "sep \<in> set s \<Longrightarrow> tl (split_on sep s) \<noteq> []"
  by (induction s) (auto simp: split_on_nonempty split: list.splits)

lemma after_final_Nil: "after_final sep [] = []"
  by (simp add: after_final_def)

lemma takeWhile_rev_absent: "sep \<notin> set s \<Longrightarrow> takeWhile (\<lambda>c. c \<noteq> sep) (rev s) = rev s"
  by (rule takeWhile_eq_all_conv [THEN iffD2]) auto

lemma after_final_absent: "sep \<notin> set s \<Longrightarrow> after_final sep s = s"
  by (simp add: after_final_def takeWhile_rev_absent)

lemma after_final_Cons:
  "after_final sep (x # xs) =
     (if sep \<in> set xs then after_final sep xs else if x = sep then xs else x # xs)"
proof (cases "sep \<in> set xs")
  case True
  then have "takeWhile (\<lambda>c. c \<noteq> sep) (rev xs @ [x]) = takeWhile (\<lambda>c. c \<noteq> sep) (rev xs)"
    by (intro takeWhile_append1 [of sep]) auto
  with True show ?thesis
    by (simp add: after_final_def del: takeWhile_append)
next
  case False
  then have "takeWhile (\<lambda>c. c \<noteq> sep) (rev xs @ [x]) = rev xs @ takeWhile (\<lambda>c. c \<noteq> sep) [x]"
    by (intro takeWhile_append2) auto
  with False show ?thesis
    by (simp add: after_final_def del: takeWhile_append)
qed

lemma last_split_on: "last (split_on sep s) = after_final sep s"
proof (induction s)
  case Nil
  show ?case by (simp add: after_final_Nil)
next
  case (Cons x xs)
  show ?case
  proof (cases "sep \<in> set xs")
    case True
    from split_on_many [OF True] obtain p q ps where ps: "split_on sep xs = p # q # ps"
      by (cases "split_on sep xs"; cases "tl (split_on sep xs)") auto
    with Cons True show ?thesis
      by (simp add: after_final_Cons)
  next
    case False
    then show ?thesis
      by (simp add: after_final_Cons split_on_single)
  qed
qed

lemma after_final_spec:
  "sep \<in> set s \<Longrightarrow> \<exists>pre. s = pre @ sep # after_final sep s \<and> sep \<notin> set (after_final sep s)"
proof (induction s)
  case Nil
  then show ?case by simp
next
  case (Cons x xs)
  show ?case
  proof (cases "sep \<in> set xs")
    case True
    with Cons.IH obtain pre where "xs = pre @ sep # after_final sep xs" "sep \<notin> set (after_final sep xs)"
      by blast
    then have "x # xs = (x # pre) @ sep # after_final sep xs" by simp
    with True \<open>sep \<notin> set (after_final sep xs)\<close> show ?thesis
      unfolding after_final_Cons by (metis (full_types))
  next
    case False
    with Cons.prems have "x = sep" by simp
    with False show ?thesis
      by (simp add: after_final_Cons)
  qed
qed

lemma header_filename_eq: "header_filename s = Inr (replace_dquote (after_final CHR ''='' s))"
  by (simp add: header_filename_def py_last_def split_on_nonempty last_split_on)

text \<open>
  C10. The file name can be extracted from every \<^verbatim>\<open>Content-Disposition\<close> value: the split
  is never empty, so \<^verbatim>\<open>[-1]\<close> never fails. For a value without \<^verbatim>\<open>=\<close> the name is the whole
  value without its double quotes.
\<close>

theorem header_filename_without_equals:
  "(\<exists>name. header_filename s = Inr name)
   \<and> (CHR ''='' \<notin> set s \<longrightarrow> header_filename s = Inr (replace_dquote s))"
  by (simp add: header_filename_eq after_final_absent)

theorem header_filename_without_equals_witness:
  "CHR ''='' \<notin> set (''inline; '' @ [dquote] @ ''LC08.tar'' @ [dquote])
   \<and> header_filename (''inline; '' @ [dquote] @ ''LC08.tar'' @ [dquote]) = Inr ''inline; LC08.tar''"
  using header_filename_without_equals [of "''inline; '' @ [dquote] @ ''LC08.tar'' @ [dquote]"]
  by (simp add: replace_dquote_def dquote_def)

section \<open>The events of a download\<close>

lemma new_events_append: "trace w' = trace w @ evs \<Longrightarrow> new_events w w' = evs"
  by (simp add: new_events_def)

lemma trace_emit [simp]: "trace (emit e w) = trace w @ [e]"
  by (simp add: emit_def)

lemma trace_store_cookies [simp]: "trace (store_cookies cs w) = trace w"
  by (simp add: store_cookies_def)

lemma trace_append_file [simp]: "trace (append_file p c w) = trace w"
  by (simp add: append_file_def)

lemma write_chunks_events:
  "write_chunks env path n cs w = (w', r) \<Longrightarrow>
     \<exists>evs. trace w' = trace w @ evs \<and> (\<forall>e \<in> set evs. file_event path n e)"
proof (induction cs arbitrary: w)
  case Nil
  then show ?case by simp
next
  case (Cons c cs)
  show ?case
  proof (cases "c = []")
    case True
    with Cons show ?thesis by simp
  next
    case False
    show ?thesis
    proof (cases "os_write env w path c")
      case (Some e)
      with False Cons.prems have "trace w' = trace w @ [Write path c]"
        by (auto simp: Let_def)
      with False show ?thesis by simp
    next
      case None
      define w3 where "w3 = emit (Update n) ((append_file path c (emit (Write path c) w))\<lparr>pbar := pbar (append_file path c (emit (Write path c) w)) + n\<rparr>)"
      from None False Cons.prems have "write_chunks env path n cs w3 = (w', r)"
        by (simp add: Let_def w3_def)
      from Cons.IH [OF this] obtain evs where
        evs: "trace w' = trace w3 @ evs" "\<forall>e \<in> set evs. file_event path n e"
        by blast
      have "trace w3 = trace w @ [Write path c, Update n]"
        by (simp add: w3_def)
      with evs have "trace w' = trace w @ (Write path c # Update n # evs)" by simp
      moreover from evs False have "\<forall>e \<in> set (Write path c # Update n # evs). file_event path n e"
        by simp
      ultimately show ?thesis by blast
    qed
  qed
qed

lemma download_body_events:
  assumes "download_body env url out t n w = (w', r)"
  shows "\<exists>evs. trace w' = trace w @ StreamGet url t # evs
           \<and> (\<forall>e \<in> set evs. \<exists>path. file_event path n e)"
proof (cases "net_stream env w url t")
  case (Inl e)
  with assms show ?thesis by (auto simp: download_body_def Let_def)
next
  case rsp: (Inr rsp)
  show ?thesis
  proof (cases "py_int (headers rsp ''Content-Length'')")
    case (Inl e)
    with rsp assms show ?thesis by (auto simp: download_body_def Let_def)
  next
    case len: (Inr len)
    show ?thesis
    proof (cases "headers rsp ''Content-Disposition''")
      case None
      with rsp len assms show ?thesis by (auto simp: download_body_def Let_def)
    next
      case (Some s)
      define path where "path = os_path_join out (replace_dquote (after_final CHR ''='' s))"
      show ?thesis
      proof (cases "os_open env ((store_cookies (set_cookies rsp) (emit (StreamGet url t) w))\<lparr>pbar_total := len, pbar := 0\<rparr>) path")
        case e: (Some e)
        with rsp len Some assms have "trace w' = trace w @ [StreamGet url t, Open path]"
          by (auto simp: download_body_def Let_def header_filename_eq path_def)
        then show ?thesis by auto
      next
        case None
        define w5 where "w5 = (let w4 = emit (Open path) ((store_cookies (set_cookies rsp) (emit (StreamGet url t) w))\<lparr>pbar_total := len, pbar := 0\<rparr>) in w4\<lparr>files := (files w4)(path \<mapsto> [])\<rparr>)"
        obtain w6 r6 where wc: "write_chunks env path n (fst (iter_content rsp)) w5 = (w6, r6)"
          by (cases "write_chunks env path n (fst (iter_content rsp)) w5")
        with rsp len Some None assms have "w' = w6"
          by (auto simp: download_body_def Let_def header_filename_eq path_def w5_def
                   split: option.splits)
        moreover from write_chunks_events [OF wc] obtain evs where
          "trace w6 = trace w5 @ evs" "\<forall>e \<in> set evs. file_event path n e" by blast
        moreover have "trace w5 = trace w @ [StreamGet url t, Open path]"
          by (simp add: w5_def Let_def)
        ultimately have "trace w' = trace w @ StreamGet url t # Open path # evs"
          "\<forall>e \<in> set (Open path # evs). file_event path n e"
          by simp_all
        then show ?thesis by blast
      qed
    qed
  qed
qed

lemma download_target_url:
  assumes "download_target env sid out ds w = (w1, Inr url)"
  shows "\<exists>d code rsid.
           os_makedirs env w out = None
         \<and> chosen_dataset env sid ds = Inr d
         \<and> DATA_PRODUCTS d = Some code
         \<and> (if is_product_id env sid
             then get_scene_id env (emit (MakeDirs out) w) sid d = Inr rsid
             else rsid = sid)
         \<and> url = EE_DOWNLOAD_URL code rsid"
  using assms
  by (auto simp: download_target_def Let_def split: option.splits sum.splits if_splits)

lemma download_target_events:
  assumes "download_target env sid out ds w = (w1, r)"
  shows "trace w1 = trace w @ MakeDirs out #
           (case chosen_dataset env sid ds of
              Inl e \<Rightarrow> []
            | Inr d \<Rightarrow> if os_makedirs env w out = None \<and> is_product_id env sid
                       then [GetSceneId sid d] else [])"
  using assms
  by (auto simp: download_target_def Let_def split: option.splits sum.splits if_splits)

lemma download_target_unknown:
  assumes "download_target env sid out ds w = (w1, r)"
    and "chosen_dataset env sid ds = Inr d" and "DATA_PRODUCTS d = None"
  shows "\<exists>e. r = Inl e"
proof (cases "is_product_id env sid \<and> os_makedirs env w out = None")
  case True
  show ?thesis
  proof (cases "get_scene_id env (emit (MakeDirs out) w) sid d")
    case (Inl e)
    with True assms have "r = Inl e"
      by (auto simp: download_target_def Let_def)
    then show ?thesis by blast
  next
    case (Inr rsid)
    with True assms show ?thesis
      by (auto simp: download_target_def Let_def)
  qed
next
  case False
  with assms show ?thesis
    by (auto simp: download_target_def Let_def split: option.splits)
qed

lemma priv_download_world:
  "priv_download env url out t n w = (w', r) \<Longrightarrow> \<exists>r0. download_body env url out t n w = (w', r0)
     \<and> r = (case r0 of Inl e \<Rightarrow> if e = Timeout then Inl (EarthExplorerError (''Connection timeout after '' @ str_int t @ '' seconds.'')) else Inl e | Inr p \<Rightarrow> Inr p)"
  by (cases "download_body env url out t n w") (auto simp: priv_download_def split: sum.splits if_splits)

lemma download_cases:
  assumes "download env sid out ds t w = (w', r)"
  shows "(\<exists>e. download_target env sid out ds w = (w', Inl e) \<and> r = Inl e)
       \<or> (\<exists>w1 url. download_target env sid out ds w = (w1, Inr url)
             \<and> priv_download env url out t 1024 w1 = (w', r))"
  using assms
  by (cases "download_target env sid out ds w") (auto simp: download_def split: sum.splits)

lemma write_chunks_ok:
  "write_chunks env path n cs w = (w', None) \<Longrightarrow> files w path = Some old \<Longrightarrow>
     trace w' = trace w @ concat (map (\<lambda>c. [Write path c, Update n]) (filter (\<lambda>c. c \<noteq> []) cs))
   \<and> pbar w' = pbar w + n * int (length (filter (\<lambda>c. c \<noteq> []) cs))
   \<and> files w' path = Some (old @ concat cs)"
proof (induction cs arbitrary: w old)
  case Nil
  then show ?case by simp
next
  case (Cons c cs)
  show ?case
  proof (cases "c = []")
    case True
    with Cons.prems have "write_chunks env path n cs w = (w', None)" by simp
    from Cons.IH [OF this Cons.prems(2)] True show ?thesis by simp
  next
    case False
    define w3 where "w3 = emit (Update n) ((append_file path c (emit (Write path c) w))\<lparr>pbar := pbar (append_file path c (emit (Write path c) w)) + n\<rparr>)"
    from False Cons.prems(1) have run: "write_chunks env path n cs w3 = (w', None)"
      by (auto simp: Let_def w3_def split: option.splits)
    have f3: "files w3 path = Some (old @ c)"
      using Cons.prems(2) by (simp add: w3_def emit_def append_file_def)
    have t3: "trace w3 = trace w @ [Write path c, Update n]"
      by (simp add: w3_def)
    have p3: "pbar w3 = pbar w + n"
      by (simp add: w3_def emit_def append_file_def)
    from Cons.IH [OF run f3] t3 p3 False show ?thesis
      by (simp add: algebra_simps)
  qed
qed


lemma concat_filter_nonempty: "concat (filter (\<lambda>c. c \<noteq> []) cs) = concat cs"
  by (induction cs) auto

lemma download_body_ok:
  assumes "download_body env url out t n w = (w', Inr p)"
  shows "\<exists>rsp s len. net_stream env w url t = Inr rsp
           \<and> headers rsp ''Content-Disposition'' = Some s
           \<and> py_int (headers rsp ''Content-Length'') = Inr len
           \<and> stream_exn rsp = None
           \<and> p = os_path_join out (replace_dquote (after_final CHR ''='' s))
           \<and> trace w' = trace w @ StreamGet url t # Open p #
                concat (map (\<lambda>c. [Write p c, Update n]) (filter (\<lambda>c. c \<noteq> []) (chunks rsp)))
           \<and> pbar w' = n * int (length (filter (\<lambda>c. c \<noteq> []) (chunks rsp)))
           \<and> files w' p = Some (concat (chunks rsp))"
proof -
  from assms obtain rsp where rsp: "net_stream env w url t = Inr rsp"
    by (cases "net_stream env w url t") (auto simp: download_body_def Let_def)
  with assms obtain len where len: "py_int (headers rsp ''Content-Length'') = Inr len"
    by (cases "py_int (headers rsp ''Content-Length'')") (auto simp: download_body_def Let_def)
  with assms rsp obtain s where s: "headers rsp ''Content-Disposition'' = Some s"
    by (cases "headers rsp ''Content-Disposition''") (auto simp: download_body_def Let_def)
  define path where "path = os_path_join out (replace_dquote (after_final CHR ''='' s))"
  define w3 where "w3 = (store_cookies (set_cookies rsp) (emit (StreamGet url t) w))\<lparr>pbar_total := len, pbar := 0\<rparr>"
  define w5 where "w5 = (emit (Open path) w3)\<lparr>files := (files (emit (Open path) w3))(path \<mapsto> [])\<rparr>"
  obtain w6 r6 where wc: "write_chunks env path n (fst (iter_content rsp)) w5 = (w6, r6)"
    by (cases "write_chunks env path n (fst (iter_content rsp)) w5")
  with assms rsp len s have res: "w' = w6" "r6 = None" "stream_exn rsp = None" "p = path"
    by (auto simp: download_body_def Let_def header_filename_eq w3_def w5_def path_def iter_content_def
             split: option.splits)
  have f5: "files w5 path = Some []" by (simp add: w5_def)
  have t5: "trace w5 = trace w @ [StreamGet url t, Open path]" by (simp add: w5_def w3_def)
  have p5: "pbar w5 = 0" by (simp add: w5_def w3_def emit_def)
  from wc res have "write_chunks env path n (fst (iter_content rsp)) w5 = (w', None)" by simp
  from write_chunks_ok [OF this f5] t5 p5 res rsp len s show ?thesis
    by (intro exI [of _ rsp] exI [of _ s] exI [of _ len])
       (simp add: path_def iter_content_def concat_filter_nonempty)
qed

lemma file_event_kind: "file_event path n e \<Longrightarrow> \<not> is_resolve e \<and> \<not> is_stream_get e"
  by (cases e) auto

lemma download_events:
  assumes "download env sid out ds t w = (w', r)"
  shows "\<exists>w1 r1 rest. download_target env sid out ds w = (w1, r1) \<and> trace w' = trace w1 @ rest
           \<and> (case r1 of
                 Inl e \<Rightarrow> rest = [] \<and> r = Inl e
               | Inr url \<Rightarrow> priv_download env url out t 1024 w1 = (w', r)
                   \<and> (\<exists>evs. rest = StreamGet url t # evs \<and> (\<forall>e \<in> set evs. \<exists>path. file_event path 1024 e)))"
proof -
  from download_cases [OF assms] show ?thesis
  proof
    assume "\<exists>e. download_target env sid out ds w = (w', Inl e) \<and> r = Inl e"
    then show ?thesis by auto
  next
    assume "\<exists>w1 url. download_target env sid out ds w = (w1, Inr url)
              \<and> priv_download env url out t 1024 w1 = (w', r)"
    then obtain w1 url where tg: "download_target env sid out ds w = (w1, Inr url)"
      and pd: "priv_download env url out t 1024 w1 = (w', r)" by blast
    from priv_download_world [OF pd] obtain r0 where "download_body env url out t 1024 w1 = (w', r0)"
      by blast
    from download_body_events [OF this] obtain evs where
      "trace w' = trace w1 @ StreamGet url t # evs" "\<forall>e \<in> set evs. \<exists>path. file_event path 1024 e"
      by blast
    with tg pd show ?thesis by auto
  qed
qed

lemma DATA_PRODUCTS_empty: "DATA_PRODUCTS [] = None"
  by (simp add: DATA_PRODUCTS_def)

lemma chosen_dataset_given: "d \<noteq> [] \<Longrightarrow> chosen_dataset env sid (Some d) = Inr d"
  by (simp add: chosen_dataset_def)

lemma download_target_ok:
  assumes "os_makedirs env w out = None" and "chosen_dataset env sid ds = Inr d"
    and "DATA_PRODUCTS d = Some code"
    and "if is_product_id env sid
         then get_scene_id env (emit (MakeDirs out) w) sid d = Inr rsid else rsid = sid"
  shows "\<exists>w1. download_target env sid out ds w = (w1, Inr (EE_DOWNLOAD_URL code rsid))"
  using assms by (auto simp: download_target_def Let_def split: if_splits)

lemma file_events_no_stream_get:
  "\<forall>e \<in> set evs. \<exists>path. file_event path n e \<Longrightarrow> filter is_stream_get evs = []"
  unfolding filter_empty_conv using file_event_kind by blast

lemma download_stream_gets:
  assumes "download env sid out ds t w = (w', r)" and "download_target env sid out ds w = (w1, r1)"
  shows "filter is_stream_get (new_events w w') = (case r1 of Inl e \<Rightarrow> [] | Inr url \<Rightarrow> [StreamGet url t])"
proof -
  from download_events [OF assms(1)] assms(2) obtain rest where
    tr: "trace w' = trace w1 @ rest"
    and rest: "case r1 of
                 Inl e \<Rightarrow> rest = [] \<and> r = Inl e
               | Inr url \<Rightarrow> priv_download env url out t 1024 w1 = (w', r)
                   \<and> (\<exists>evs. rest = StreamGet url t # evs \<and> (\<forall>e \<in> set evs. \<exists>path. file_event path 1024 e))"
    by auto
  define rs where "rs = (case chosen_dataset env sid ds of
              Inl e \<Rightarrow> []
            | Inr d \<Rightarrow> if os_makedirs env w out = None \<and> is_product_id env sid
                       then [GetSceneId sid d] else [])"
  from download_target_events [OF assms(2)] tr have "trace w' = trace w @ (MakeDirs out # rs @ rest)"
    by (simp add: rs_def)
  then have ne: "new_events w w' = MakeDirs out # rs @ rest"
    by (rule new_events_append)
  have "filter is_stream_get rs = []"
    by (auto simp: rs_def split: sum.splits)
  moreover from rest have "filter is_stream_get rest = (case r1 of Inl e \<Rightarrow> [] | Inr url \<Rightarrow> [StreamGet url t])"
    by (cases r1) (auto simp: file_events_no_stream_get)
  ultimately show ?thesis using ne by simp
qed

section \<open>The URL and the resolver\<close>

text \<open>
  C3. For a dataset name of \<open>DATA_PRODUCTS\<close> with product code \<open>code\<close>, every streamed
  request that \<^verbatim>\<open>download\<close> issues goes to the host followed by
  \<^verbatim>\<open>/download/<code>/<scene id>/EE/\<close> and carries the caller's timeout; the scene identifier
  is the one given, or for a product identifier the one the resolver returned. Once the
  directory exists and the identifier is resolved, that request is issued. For
  \<^verbatim>\<open>landsat_ot_c2_l1\<close> and \<^verbatim>\<open>LC80100172015082LGN00\<close> the URL is the host followed by
  \<^verbatim>\<open>/download/5e81f14f92acf9ef/LC80100172015082LGN00/EE/\<close>, as the instance below evaluates.
\<close>

theorem download_builds_url:
  assumes "DATA_PRODUCTS d = Some code" and "download env sid out (Some d) t w = (w', r)"
  shows "(\<forall>url t'. StreamGet url t' \<in> set (new_events w w') \<longrightarrow>
            (\<exists>rsid. (if is_product_id env sid
                      then get_scene_id env (emit (MakeDirs out) w) sid d = Inr rsid
                      else rsid = sid)
               \<and> url = ''https://earthexplorer.usgs.gov'' @ ''/download/'' @ code @ ''/'' @ rsid @ ''/EE/''
               \<and> t' = t))
       \<and> (\<forall>rsid. os_makedirs env w out = None
               \<and> (if is_product_id env sid
                   then get_scene_id env (emit (MakeDirs out) w) sid d = Inr rsid
                   else rsid = sid) \<longrightarrow>
            StreamGet (''https://earthexplorer.usgs.gov'' @ ''/download/'' @ code @ ''/'' @ rsid @ ''/EE/'') t
              \<in> set (new_events w w'))"
proof -
  from assms(1) have d: "d \<noteq> []" using DATA_PRODUCTS_empty by auto
  then have cd: "chosen_dataset env sid (Some d) = Inr d" by (rule chosen_dataset_given)
  obtain w1 r1 where tg: "download_target env sid out (Some d) w = (w1, r1)"
    by (cases "download_target env sid out (Some d) w")
  note sg = download_stream_gets [OF assms(2) tg]
  have fmt: "EE_DOWNLOAD_URL c s =
      ''https://earthexplorer.usgs.gov'' @ ''/download/'' @ c @ ''/'' @ s @ ''/EE/''" for c s
    by (simp add: EE_DOWNLOAD_URL_def)
  show ?thesis
  proof (intro conjI allI impI)
    fix url t'
    assume "StreamGet url t' \<in> set (new_events w w')"
    then have "StreamGet url t' \<in> set (filter is_stream_get (new_events w w'))" by simp
    with sg have r1: "r1 = Inr url" and t': "t' = t"
      by (cases r1; simp)+
    from download_target_url [OF tg [unfolded r1]] cd assms(1) t'
    show "\<exists>rsid. (if is_product_id env sid
                      then get_scene_id env (emit (MakeDirs out) w) sid d = Inr rsid
                      else rsid = sid)
               \<and> url = ''https://earthexplorer.usgs.gov'' @ ''/download/'' @ code @ ''/'' @ rsid @ ''/EE/''
               \<and> t' = t"
      by (auto simp: fmt)
  next
    fix rsid
    assume h: "os_makedirs env w out = None
               \<and> (if is_product_id env sid
                   then get_scene_id env (emit (MakeDirs out) w) sid d = Inr rsid
                   else rsid = sid)"
    then have "\<exists>w1. download_target env sid out (Some d) w = (w1, Inr (EE_DOWNLOAD_URL code rsid))"
      using download_target_ok [OF _ cd assms(1), of w out rsid] by simp
    with tg have "r1 = Inr (EE_DOWNLOAD_URL code rsid)" by auto
    with sg have "filter is_stream_get (new_events w w') = [StreamGet (EE_DOWNLOAD_URL code rsid) t]"
      by simp
    then have "StreamGet (EE_DOWNLOAD_URL code rsid) t \<in> set (filter is_stream_get (new_events w w'))"
      by simp
    then show "StreamGet (''https://earthexplorer.usgs.gov'' @ ''/download/'' @ code @ ''/'' @ rsid @ ''/EE/'') t
              \<in> set (new_events w w')"
      by (simp add: fmt)
  qed
qed

theorem download_builds_url_witness:
  "DATA_PRODUCTS ''landsat_ot_c2_l1'' = Some ''5e81f14f92acf9ef''
   \<and> StreamGet (''https://earthexplorer.usgs.gov'' @ ''/download/5e81f14f92acf9ef/LC80100172015082LGN00/EE/'') 300
       \<in> set (new_events world0 (fst (download portal ''LC80100172015082LGN00'' ''out'' (Some ''landsat_ot_c2_l1'') 300 world0)))"
proof -
  have tab: "DATA_PRODUCTS ''landsat_ot_c2_l1'' = Some ''5e81f14f92acf9ef''"
    by (simp add: DATA_PRODUCTS_def)
  have run: "download portal ''LC80100172015082LGN00'' ''out'' (Some ''landsat_ot_c2_l1'') 300 world0 =
             (fst (download portal ''LC80100172015082LGN00'' ''out'' (Some ''landsat_ot_c2_l1'') 300 world0),
              snd (download portal ''LC80100172015082LGN00'' ''out'' (Some ''landsat_ot_c2_l1'') 300 world0))"
    by simp
  have env: "os_makedirs portal world0 ''out'' = None" "\<not> is_product_id portal ''LC80100172015082LGN00''"
    by (simp_all add: portal_def test_env_def)
  from download_builds_url [OF tab run] env tab show ?thesis
    by simp
qed

lemma run_product_events:
  "new_events world0 (fst (download portal product ''out'' None 300 world0)) =
     [MakeDirs ''out'', GetSceneId product ''landsat_ot_c2_l1'',
      StreamGet ''https://earthexplorer.usgs.gov/download/5e81f14f92acf9ef/LC80100172015082LGN00/EE/'' 300,
      Open ''out/LC08_scene.tar'', Write ''out/LC08_scene.tar'' ''ab'', Update 1024,
      Write ''out/LC08_scene.tar'' ''cd'', Update 1024]"
  by code_simp

lemma run_scene_events:
  "new_events world0 (fst (download portal scene ''out'' (Some ''landsat_ot_c2_l1'') 300 world0)) =
     [MakeDirs ''out'',
      StreamGet ''https://earthexplorer.usgs.gov/download/5e81f14f92acf9ef/LC80100172015082LGN00/EE/'' 300,
      Open ''out/LC08_scene.tar'', Write ''out/LC08_scene.tar'' ''ab'', Update 1024,
      Write ''out/LC08_scene.tar'' ''cd'', Update 1024]"
  by code_simp

lemma write_chunks_resolver:
  "write_chunks (env\<lparr>get_scene_id := f\<rparr>) path n cs w = write_chunks env path n cs w"
  by (induction cs arbitrary: w) (auto simp: Let_def split: option.splits)

lemma download_body_resolver:
  "download_body (env\<lparr>get_scene_id := f\<rparr>) url out t n w = download_body env url out t n w"
  by (simp add: download_body_def Let_def write_chunks_resolver
           split: sum.splits option.splits)

lemma chosen_dataset_resolver:
  "chosen_dataset (env\<lparr>get_scene_id := f\<rparr>) sid ds = chosen_dataset env sid ds"
  by (simp add: chosen_dataset_def split: option.splits)

lemma download_target_resolver:
  "\<not> is_product_id env sid \<Longrightarrow>
     download_target (env\<lparr>get_scene_id := f\<rparr>) sid out ds w = download_target env sid out ds w"
  by (simp add: download_target_def chosen_dataset_resolver Let_def
           split: option.splits sum.splits)

lemma priv_download_resolver:
  "priv_download (env\<lparr>get_scene_id := f\<rparr>) url out t n w = priv_download env url out t n w"
  by (simp add: priv_download_def download_body_resolver)

text \<open>
  C4. \<^verbatim>\<open>download\<close> never calls the resolver for an identifier that \<^verbatim>\<open>is_product_id\<close>
  rejects: the trace has no call, and the run is the same whatever the resolver is. For a
  product identifier it calls the resolver exactly once, right after the directory is
  made and before any request for the URL, whenever the directory could be made and the
  dataset is known (given, or guessed without an error): when that call raises,
  \<^verbatim>\<open>download\<close> stops there with its error; when it returns an identifier, the URL requested
  is built from that identifier. A run that requests a URL for a product identifier has
  made exactly that one call before, and no run calls the resolver twice.
\<close>

theorem download_resolver_calls:
  assumes "download env sid out ds t w = (w', r)"
  shows "(\<not> is_product_id env sid \<longrightarrow> filter is_resolve (new_events w w') = [])
       \<and> (is_product_id env sid \<longrightarrow>
            (\<forall>d. os_makedirs env w out = None \<and> chosen_dataset env sid ds = Inr d \<longrightarrow>
               (\<exists>rest. new_events w w' = MakeDirs out # GetSceneId sid d # rest
                  \<and> filter is_resolve rest = [])))
       \<and> (is_product_id env sid \<longrightarrow>
            (\<forall>url t'. StreamGet url t' \<in> set (new_events w w') \<longrightarrow>
               (\<exists>d rest. new_events w w' = MakeDirs out # GetSceneId sid d # rest
                  \<and> filter is_resolve rest = [] \<and> StreamGet url t' \<in> set rest)))
       \<and> length (filter is_resolve (new_events w w')) \<le> 1
       \<and> (\<not> is_product_id env sid \<longrightarrow>
            (\<forall>f. download (env\<lparr>get_scene_id := f\<rparr>) sid out ds t w = download env sid out ds t w))
       \<and> (is_product_id env sid \<longrightarrow>
            (\<forall>d e. os_makedirs env w out = None \<and> chosen_dataset env sid ds = Inr d
                   \<and> get_scene_id env (emit (MakeDirs out) w) sid d = Inl e \<longrightarrow>
               w' = emit (GetSceneId sid d) (emit (MakeDirs out) w) \<and> r = Inl e))
       \<and> (is_product_id env sid \<longrightarrow>
            (\<forall>d rsid code. os_makedirs env w out = None \<and> chosen_dataset env sid ds = Inr d
                   \<and> get_scene_id env (emit (MakeDirs out) w) sid d = Inr rsid
                   \<and> DATA_PRODUCTS d = Some code \<longrightarrow>
               filter is_stream_get (new_events w w') = [StreamGet (EE_DOWNLOAD_URL code rsid) t]))"
proof -
  from download_events [OF assms] obtain w1 r1 rest where
    tg: "download_target env sid out ds w = (w1, r1)" and tr: "trace w' = trace w1 @ rest"
    and rest: "case r1 of
                 Inl e \<Rightarrow> rest = [] \<and> r = Inl e
               | Inr url \<Rightarrow> priv_download env url out t 1024 w1 = (w', r)
                   \<and> (\<exists>evs. rest = StreamGet url t # evs \<and> (\<forall>e \<in> set evs. \<exists>path. file_event path 1024 e))"
    by blast
  from rest have nores: "filter is_resolve rest = []"
    by (cases r1) (auto simp: filter_empty_conv dest: file_event_kind)
  define rs where "rs = (case chosen_dataset env sid ds of
              Inl e \<Rightarrow> []
            | Inr d \<Rightarrow> if os_makedirs env w out = None \<and> is_product_id env sid
                       then [GetSceneId sid d] else [])"
  from download_target_events [OF tg] tr have "trace w' = trace w @ (MakeDirs out # rs @ rest)"
    by (simp add: rs_def)
  then have ne: "new_events w w' = MakeDirs out # rs @ rest"
    by (rule new_events_append)
  have a: "\<not> is_product_id env sid \<Longrightarrow> rs = []"
    by (simp add: rs_def split: sum.splits)
  have b: "is_product_id env sid \<Longrightarrow> os_makedirs env w out = None \<Longrightarrow> chosen_dataset env sid ds = Inr d
             \<Longrightarrow> rs = [GetSceneId sid d]" for d
    by (simp add: rs_def)
  have c: "rs = [] \<or> (\<exists>d. rs = [GetSceneId sid d])"
    by (auto simp: rs_def split: sum.splits)
  have d: "StreamGet url t' \<in> set (new_events w w') \<Longrightarrow> is_product_id env sid \<Longrightarrow>
             (\<exists>d. rs = [GetSceneId sid d]) \<and> StreamGet url t' \<in> set rest" for url t'
  proof -
    assume sg: "StreamGet url t' \<in> set (new_events w w')" and pid: "is_product_id env sid"
    from sg ne c have inrest: "StreamGet url t' \<in> set rest" by auto
    with rest obtain u where "r1 = Inr u" by (cases r1) auto
    with tg download_target_url [of env sid out ds w w1 u] pid have "\<exists>d. rs = [GetSceneId sid d]"
      by (auto simp: rs_def)
    with inrest show ?thesis by simp
  qed
  have e: "download (env\<lparr>get_scene_id := f\<rparr>) sid out ds t w = download env sid out ds t w"
    if "\<not> is_product_id env sid" for f
    using that
    by (simp add: download_def download_target_resolver priv_download_resolver
             split: prod.splits sum.splits)
  have f: "w' = emit (GetSceneId sid d) (emit (MakeDirs out) w) \<and> r = Inl e"
    if "is_product_id env sid" "os_makedirs env w out = None" "chosen_dataset env sid ds = Inr d"
      "get_scene_id env (emit (MakeDirs out) w) sid d = Inl e" for d e
    using that assms by (simp add: download_def download_target_def Let_def)
  have g: "filter is_stream_get (new_events w w') = [StreamGet (EE_DOWNLOAD_URL code rsid) t]"
    if "is_product_id env sid" "os_makedirs env w out = None" "chosen_dataset env sid ds = Inr d"
      "get_scene_id env (emit (MakeDirs out) w) sid d = Inr rsid" "DATA_PRODUCTS d = Some code"
    for d rsid code
  proof -
    from that have "if is_product_id env sid
         then get_scene_id env (emit (MakeDirs out) w) sid d = Inr rsid else rsid = sid"
      by simp
    from download_target_ok [OF that(2,3,5) this] tg
    have "r1 = Inr (EE_DOWNLOAD_URL code rsid)" by auto
    with download_stream_gets [OF assms tg] show ?thesis by simp
  qed
  show ?thesis
  proof (intro conjI impI allI)
    assume "\<not> is_product_id env sid"
    with a ne nores show "filter is_resolve (new_events w w') = []" by simp
  next
    fix f
    assume "\<not> is_product_id env sid"
    then show "download (env\<lparr>get_scene_id := f\<rparr>) sid out ds t w = download env sid out ds t w"
      by (rule e)
  next
    fix d e
    assume "is_product_id env sid"
      "os_makedirs env w out = None \<and> chosen_dataset env sid ds = Inr d
                   \<and> get_scene_id env (emit (MakeDirs out) w) sid d = Inl e"
    then show "w' = emit (GetSceneId sid d) (emit (MakeDirs out) w)"
      using f by blast
  next
    fix d e
    assume "is_product_id env sid"
      "os_makedirs env w out = None \<and> chosen_dataset env sid ds = Inr d
                   \<and> get_scene_id env (emit (MakeDirs out) w) sid d = Inl e"
    then show "r = Inl e"
      using f by blast
  next
    fix d rsid code
    assume "is_product_id env sid"
      "os_makedirs env w out = None \<and> chosen_dataset env sid ds = Inr d
                   \<and> get_scene_id env (emit (MakeDirs out) w) sid d = Inr rsid
                   \<and> DATA_PRODUCTS d = Some code"
    then show "filter is_stream_get (new_events w w') = [StreamGet (EE_DOWNLOAD_URL code rsid) t]"
      using g by blast
  next
    fix d
    assume "is_product_id env sid" "os_makedirs env w out = None \<and> chosen_dataset env sid ds = Inr d"
    with b [of d] ne nores
    show "\<exists>rest. new_events w w' = MakeDirs out # GetSceneId sid d # rest \<and> filter is_resolve rest = []"
      by simp
  next
    fix url t'
    assume "is_product_id env sid" "StreamGet url t' \<in> set (new_events w w')"
    with d [of url t'] ne nores
    show "\<exists>d rest. new_events w w' = MakeDirs out # GetSceneId sid d # rest
            \<and> filter is_resolve rest = [] \<and> StreamGet url t' \<in> set rest"
      by auto
  next
    from c ne nores show "length (filter is_resolve (new_events w w')) \<le> 1" by auto
  qed
qed

lemma run_failing_resolver:
  "download failing_resolver product ''out'' None 300 world0 =
     (emit (GetSceneId product ''landsat_ot_c2_l1'') (emit (MakeDirs ''out'') world0),
      Inl (OtherError ''dataset not found''))"
  by (simp add: download_def download_target_def chosen_dataset_def failing_resolver_def portal_def
        test_env_def product_def Let_def)

theorem download_resolver_calls_witness:
  "is_product_id portal product \<and> \<not> is_product_id portal scene
   \<and> filter is_resolve (new_events world0 (fst (download portal product ''out'' None 300 world0)))
       = [GetSceneId product ''landsat_ot_c2_l1'']
   \<and> filter is_stream_get (new_events world0 (fst (download portal product ''out'' None 300 world0)))
       = [StreamGet ''https://earthexplorer.usgs.gov/download/5e81f14f92acf9ef/LC80100172015082LGN00/EE/'' 300]
   \<and> filter is_resolve (new_events world0 (fst (download portal scene ''out'' (Some ''landsat_ot_c2_l1'') 300 world0)))
       = []
   \<and> download failing_resolver scene ''out'' (Some ''landsat_ot_c2_l1'') 300 world0
       = download portal scene ''out'' (Some ''landsat_ot_c2_l1'') 300 world0
   \<and> snd (download failing_resolver product ''out'' None 300 world0) = Inl (OtherError ''dataset not found'')"
proof -
  have p: "is_product_id portal product" and s: "\<not> is_product_id portal scene"
    by (simp_all add: portal_def test_env_def product_def scene_def)
  have pf: "is_product_id failing_resolver product"
    by (simp add: failing_resolver_def portal_def test_env_def product_def)
  have rp: "download portal product ''out'' None 300 world0 =
             (fst (download portal product ''out'' None 300 world0),
              snd (download portal product ''out'' None 300 world0))"
    and rs: "download portal scene ''out'' (Some ''landsat_ot_c2_l1'') 300 world0 =
             (fst (download portal scene ''out'' (Some ''landsat_ot_c2_l1'') 300 world0),
              snd (download portal scene ''out'' (Some ''landsat_ot_c2_l1'') 300 world0))"
    by simp_all
  have mk: "os_makedirs failing_resolver world0 ''out'' = None"
    "chosen_dataset failing_resolver product None = Inr ''landsat_ot_c2_l1''"
    "get_scene_id failing_resolver (emit (MakeDirs ''out'') world0) product ''landsat_ot_c2_l1''
       = Inl (OtherError ''dataset not found'')"
    by (simp_all add: failing_resolver_def portal_def test_env_def chosen_dataset_def)
  note tp = download_resolver_calls [OF rp]
  note ts = download_resolver_calls [OF rs]
  note tf = download_resolver_calls [OF run_failing_resolver]
  have a: "filter is_resolve (new_events world0 (fst (download portal product ''out'' None 300 world0)))
       = [GetSceneId product ''landsat_ot_c2_l1'']"
    by (simp add: run_product_events)
  have b: "filter is_stream_get (new_events world0 (fst (download portal product ''out'' None 300 world0)))
       = [StreamGet ''https://earthexplorer.usgs.gov/download/5e81f14f92acf9ef/LC80100172015082LGN00/EE/'' 300]"
    by (simp add: run_product_events)
  from ts s have c: "filter is_resolve (new_events world0 (fst (download portal scene ''out'' (Some ''landsat_ot_c2_l1'') 300 world0)))
       = []"
    by blast
  from ts s have "\<forall>f. download (portal\<lparr>get_scene_id := f\<rparr>) scene ''out'' (Some ''landsat_ot_c2_l1'') 300 world0
            = download portal scene ''out'' (Some ''landsat_ot_c2_l1'') 300 world0"
    by blast
  then have d: "download failing_resolver scene ''out'' (Some ''landsat_ot_c2_l1'') 300 world0
       = download portal scene ''out'' (Some ''landsat_ot_c2_l1'') 300 world0"
    by (simp add: failing_resolver_def)
  from tf pf mk have e: "snd (download failing_resolver product ''out'' None 300 world0) = Inl (OtherError ''dataset not found'')"
    by (simp add: run_failing_resolver)
  from p s a b c d e tp show ?thesis by (intro conjI)
qed

section \<open>Unknown datasets and timeouts\<close>

lemma chosen_dataset_empty: "chosen_dataset env sid (Some []) = chosen_dataset env sid None"
  by (simp add: chosen_dataset_def)

lemma download_empty_dataset:
  "download env sid out (Some []) t w = download env sid out None t w"
  unfolding download_def download_target_def chosen_dataset_empty by (rule refl)

lemma download_unknown:
  assumes "d \<noteq> []" and "DATA_PRODUCTS d = None" and "download env sid out (Some d) t w = (w', r)"
  shows "(\<exists>e. r = Inl e)
       \<and> filter is_stream_get (new_events w w') = []
       \<and> (os_makedirs env w out = None
            \<and> (is_product_id env sid \<longrightarrow>
                 (\<exists>rsid. get_scene_id env (emit (MakeDirs out) w) sid d = Inr rsid)) \<longrightarrow>
          r = Inl (KeyError d))
       \<and> (\<forall>e. os_makedirs env w out = None \<and> is_product_id env sid
                \<and> get_scene_id env (emit (MakeDirs out) w) sid d = Inl e \<longrightarrow>
              r = Inl e)"
proof -
  from assms(1) have cd: "chosen_dataset env sid (Some d) = Inr d" by (rule chosen_dataset_given)
  obtain w1 r1 where tg: "download_target env sid out (Some d) w = (w1, r1)"
    by (cases "download_target env sid out (Some d) w")
  from download_target_unknown [OF tg cd assms(2)] obtain e where e: "r1 = Inl e" by blast
  with tg assms(3) have r: "r = Inl e" by (simp add: download_def)
  from download_stream_gets [OF assms(3) tg] e
  have none: "filter is_stream_get (new_events w w') = []" by simp
  have key: "r = Inl (KeyError d)"
    if "os_makedirs env w out = None"
      and "is_product_id env sid \<longrightarrow> (\<exists>rsid. get_scene_id env (emit (MakeDirs out) w) sid d = Inr rsid)"
    using that tg e r cd assms(2)
    by (auto simp: download_target_def Let_def split: if_splits)
  have res: "r = Inl e'"
    if "os_makedirs env w out = None" "is_product_id env sid"
      "get_scene_id env (emit (MakeDirs out) w) sid d = Inl e'" for e'
    using that tg e r cd
    by (auto simp: download_target_def Let_def)
  from r none key res show ?thesis by blast
qed

text \<open>
  C7, amended. For a dataset name that is not empty and not in \<open>DATA_PRODUCTS\<close>,
  \<^verbatim>\<open>download\<close> fails and issues no streamed request. The failure is the \<open>KeyError\<close> of the
  dataset name when the directory could be made and the resolver (called for a product
  identifier) returned; when the resolver raises, its error is the failure instead. An
  empty name counts as no name: \<^verbatim>\<open>download\<close> with it does what \<^verbatim>\<open>download\<close> without a dataset
  does, and the dataset is the one guessed from the identifier.
\<close>

theorem download_unknown_dataset:
  "download env sid out (Some []) t w = download env sid out None t w
   \<and> chosen_dataset env sid (Some []) = guess_dataset env sid
   \<and> (d \<noteq> [] \<and> DATA_PRODUCTS d = None \<and> download env sid out (Some d) t w = (w', r) \<longrightarrow>
         (\<exists>e. r = Inl e)
       \<and> filter is_stream_get (new_events w w') = []
       \<and> (os_makedirs env w out = None
            \<and> (is_product_id env sid \<longrightarrow>
                 (\<exists>rsid. get_scene_id env (emit (MakeDirs out) w) sid d = Inr rsid)) \<longrightarrow>
          r = Inl (KeyError d))
       \<and> (\<forall>e. os_makedirs env w out = None \<and> is_product_id env sid
                \<and> get_scene_id env (emit (MakeDirs out) w) sid d = Inl e \<longrightarrow>
              r = Inl e))"
proof (intro conjI)
  show "download env sid out (Some []) t w = download env sid out None t w"
    by (rule download_empty_dataset)
  show "chosen_dataset env sid (Some []) = guess_dataset env sid"
    by (simp add: chosen_dataset_def)
  show "d \<noteq> [] \<and> DATA_PRODUCTS d = None \<and> download env sid out (Some d) t w = (w', r) \<longrightarrow>
         (\<exists>e. r = Inl e)
       \<and> filter is_stream_get (new_events w w') = []
       \<and> (os_makedirs env w out = None
            \<and> (is_product_id env sid \<longrightarrow>
                 (\<exists>rsid. get_scene_id env (emit (MakeDirs out) w) sid d = Inr rsid)) \<longrightarrow>
          r = Inl (KeyError d))
       \<and> (\<forall>e. os_makedirs env w out = None \<and> is_product_id env sid
                \<and> get_scene_id env (emit (MakeDirs out) w) sid d = Inl e \<longrightarrow>
              r = Inl e)"
    using download_unknown [of d env sid out t w w' r] by blast
qed

theorem download_unknown_dataset_witness:
  "download portal scene ''out'' (Some []) 300 world0 = download portal scene ''out'' None 300 world0
   \<and> ''landsat_9'' \<noteq> [] \<and> DATA_PRODUCTS ''landsat_9'' = None
   \<and> snd (download portal scene ''out'' (Some ''landsat_9'') 300 world0) = Inl (KeyError ''landsat_9'')
   \<and> filter is_stream_get
        (new_events world0 (fst (download portal scene ''out'' (Some ''landsat_9'') 300 world0))) = []
   \<and> snd (download failing_resolver product ''out'' (Some ''landsat_9'') 300 world0)
       = Inl (OtherError ''dataset not found'')"
proof -
  have tab: "DATA_PRODUCTS ''landsat_9'' = None" by (simp add: DATA_PRODUCTS_def)
  have ne: "''landsat_9'' \<noteq> []" by simp
  have run: "download portal scene ''out'' (Some ''landsat_9'') 300 world0 =
             (fst (download portal scene ''out'' (Some ''landsat_9'') 300 world0),
              snd (download portal scene ''out'' (Some ''landsat_9'') 300 world0))"
    and runf: "download failing_resolver product ''out'' (Some ''landsat_9'') 300 world0 =
             (fst (download failing_resolver product ''out'' (Some ''landsat_9'') 300 world0),
              snd (download failing_resolver product ''out'' (Some ''landsat_9'') 300 world0))"
    by simp_all
  have env: "os_makedirs portal world0 ''out'' = None" "\<not> is_product_id portal scene"
    by (simp_all add: portal_def test_env_def scene_def)
  have envf: "os_makedirs failing_resolver world0 ''out'' = None" "is_product_id failing_resolver product"
    "get_scene_id failing_resolver (emit (MakeDirs ''out'') world0) product ''landsat_9''
       = Inl (OtherError ''dataset not found'')"
    by (simp_all add: failing_resolver_def portal_def test_env_def product_def)
  note a = download_unknown_dataset [of portal scene "''out''" 300 world0 "''landsat_9''"
      "fst (download portal scene ''out'' (Some ''landsat_9'') 300 world0)"
      "snd (download portal scene ''out'' (Some ''landsat_9'') 300 world0)"]
  note b = download_unknown_dataset [of failing_resolver product "''out''" 300 world0 "''landsat_9''"
      "fst (download failing_resolver product ''out'' (Some ''landsat_9'') 300 world0)"
      "snd (download failing_resolver product ''out'' (Some ''landsat_9'') 300 world0)"]
  from a have a1: "download portal scene ''out'' (Some []) 300 world0 = download portal scene ''out'' None 300 world0"
    by (rule conjunct1)
  from a ne tab run env have a2: "snd (download portal scene ''out'' (Some ''landsat_9'') 300 world0) = Inl (KeyError ''landsat_9'')"
    and a3: "filter is_stream_get
        (new_events world0 (fst (download portal scene ''out'' (Some ''landsat_9'') 300 world0))) = []"
    by blast+
  from b ne tab runf envf have b1: "snd (download failing_resolver product ''out'' (Some ''landsat_9'') 300 world0)
       = Inl (OtherError ''dataset not found'')"
    by blast
  from a1 ne tab a2 a3 b1 show ?thesis by (intro conjI)
qed

text \<open>
  C7 as stated fails in two ways. The empty string has no entry in \<open>DATA_PRODUCTS\<close>, yet
  \<^verbatim>\<open>download\<close> called with it guesses the dataset, requests the URL and returns the path.
  And for a product identifier with the unknown name \<^verbatim>\<open>landsat_9\<close> the resolver is called
  first; when it raises, its error is what \<^verbatim>\<open>download\<close> raises, not a \<open>KeyError\<close>.
\<close>

theorem download_unknown_dataset_counterexample:
  "DATA_PRODUCTS [] = None
   \<and> snd (download portal scene ''out'' (Some []) 300 world0) = Inr ''out/LC08_scene.tar''
   \<and> filter is_stream_get (new_events world0 (fst (download portal scene ''out'' (Some []) 300 world0)))
       = [StreamGet ''https://earthexplorer.usgs.gov/download/5e81f14f92acf9ef/LC80100172015082LGN00/EE/'' 300]
   \<and> DATA_PRODUCTS ''landsat_9'' = None
   \<and> snd (download failing_resolver product ''out'' (Some ''landsat_9'') 300 world0)
       = Inl (OtherError ''dataset not found'')"
proof -
  have "DATA_PRODUCTS [] = None" "DATA_PRODUCTS ''landsat_9'' = None"
    by (simp_all add: DATA_PRODUCTS_def)
  moreover have "snd (download portal scene ''out'' (Some []) 300 world0) = Inr ''out/LC08_scene.tar''"
    by code_simp
  moreover have "filter is_stream_get (new_events world0 (fst (download portal scene ''out'' (Some []) 300 world0)))
       = [StreamGet ''https://earthexplorer.usgs.gov/download/5e81f14f92acf9ef/LC80100172015082LGN00/EE/'' 300]"
    by code_simp
  moreover have "snd (download failing_resolver product ''out'' (Some ''landsat_9'') 300 world0)
       = Inl (OtherError ''dataset not found'')"
    by code_simp
  ultimately show ?thesis by simp
qed







end
